theory Spec2Isabelle
  imports Complex_Main
begin

section \<open>Script numbers\<close>

text \<open>
  The scripts compute with double-precision numbers. In the first model a number is an
  exact real or one of the three special values of the arithmetic: the two infinities and
  not-a-number. Rounding, overflow of finite results and the sign of zero are not
  modelled here (rounding and overflow are in the second model, of the section on double
  precision); every division by zero whose sign could matter is guarded in the source.
  The special values come from where the arithmetic makes them: a division by zero,
  the difference of two infinities, a fractional power or a square root of a negative
  number.
\<close>

datatype num = Fin real | PInf | NInf | NaN

fun isnan :: "num \<Rightarrow> bool" where
  "isnan NaN = True"
| "isnan _ = False"

fun isinf :: "num \<Rightarrow> bool" where
  "isinf PInf = True"
| "isinf NInf = True"
| "isinf _ = False"

instantiation num :: "{plus, uminus, minus, times, inverse, abs, ord}"
begin

fun plus_num :: "num \<Rightarrow> num \<Rightarrow> num" where
  "Fin a + Fin b = Fin (a + b)"
| "NaN + _ = NaN"
| "_ + NaN = NaN"
| "PInf + NInf = NaN"
| "NInf + PInf = NaN"
| "PInf + _ = PInf"
| "_ + PInf = PInf"
| "NInf + _ = NInf"
| "_ + NInf = NInf"

fun uminus_num :: "num \<Rightarrow> num" where
  "- Fin a = Fin (- a)"
| "- PInf = NInf"
| "- NInf = PInf"
| "- NaN = NaN"

definition minus_num :: "num \<Rightarrow> num \<Rightarrow> num" where
  "x - y = x + (- y :: num)"

fun times_num :: "num \<Rightarrow> num \<Rightarrow> num" where
  "Fin a * Fin b = Fin (a * b)"
| "NaN * _ = NaN"
| "_ * NaN = NaN"
| "Fin a * PInf = (if a = 0 then NaN else if 0 < a then PInf else NInf)"
| "Fin a * NInf = (if a = 0 then NaN else if 0 < a then NInf else PInf)"
| "PInf * Fin b = (if b = 0 then NaN else if 0 < b then PInf else NInf)"
| "NInf * Fin b = (if b = 0 then NaN else if 0 < b then NInf else PInf)"
| "PInf * PInf = PInf"
| "PInf * NInf = NInf"
| "NInf * PInf = NInf"
| "NInf * NInf = PInf"

fun divide_num :: "num \<Rightarrow> num \<Rightarrow> num" where
  "Fin a div Fin b =
     (if b = 0 then (if a = 0 then NaN else if 0 < a then PInf else NInf)
      else Fin (a / b))"
| "NaN div _ = NaN"
| "_ div NaN = NaN"
| "Fin a div PInf = Fin 0"
| "Fin a div NInf = Fin 0"
| "PInf div Fin b = (if 0 \<le> b then PInf else NInf)"
| "NInf div Fin b = (if 0 \<le> b then NInf else PInf)"
| "PInf div PInf = NaN"
| "PInf div NInf = NaN"
| "NInf div PInf = NaN"
| "NInf div NInf = NaN"

definition inverse_num :: "num \<Rightarrow> num" where
  "inverse x = Fin 1 div (x :: num)"

fun abs_num :: "num \<Rightarrow> num" where
  "\<bar>Fin a\<bar> = Fin \<bar>a\<bar>"
| "\<bar>PInf\<bar> = PInf"
| "\<bar>NInf\<bar> = PInf"
| "\<bar>NaN\<bar> = NaN"

text \<open>Every comparison with not-a-number is false.\<close>

fun less_num :: "num \<Rightarrow> num \<Rightarrow> bool" where
  "Fin a < Fin b = (a < b)"
| "NaN < _ = False"
| "_ < NaN = False"
| "PInf < _ = False"
| "_ < PInf = True"
| "_ < NInf = False"
| "NInf < _ = True"

fun less_eq_num :: "num \<Rightarrow> num \<Rightarrow> bool" where
  "Fin a \<le> Fin b = (a \<le> b)"
| "NaN \<le> _ = False"
| "_ \<le> NaN = False"
| "_ \<le> PInf = True"
| "NInf \<le> _ = True"
| "PInf \<le> _ = False"
| "_ \<le> NInf = False"

instance ..

end

subsection \<open>The Math object\<close>

text \<open>
  \<open>Math.range(v, lo, hi)\<close> limits \<open>v\<close> to the interval by two comparisons, so
  not-a-number passes through it unchanged.
\<close>

definition range_num :: "num \<Rightarrow> num \<Rightarrow> num \<Rightarrow> num" where
  "range_num v lo hi = (if v < lo then lo else if hi < v then hi else v)"

text \<open>
  \<open>Math.pow\<close>. Every call of the source has a finite literal exponent; an exponent that
  is not finite gives not-a-number here. An integral exponent is a repeated product, also
  of a negative base; a fractional power of a negative base is not-a-number.
\<close>

fun pow :: "num \<Rightarrow> num \<Rightarrow> num" where
  "pow (Fin x) (Fin y) =
     (if y = of_int \<lfloor>y\<rfloor> then
        (if 0 \<le> y then Fin (x ^ nat \<lfloor>y\<rfloor>)
         else if x = 0 then PInf else Fin (1 / x ^ nat \<lfloor>- y\<rfloor>))
      else if x < 0 then NaN
      else if x = 0 then (if 0 < y then Fin 0 else PInf)
      else Fin (x powr y))"
| "pow PInf (Fin y) = (if 0 < y then PInf else if y = 0 then Fin 1 else Fin 0)"
| "pow NInf (Fin y) =
     (if y = 0 then Fin 1 else if y < 0 then Fin 0
      else if y = of_int \<lfloor>y\<rfloor> \<and> odd \<lfloor>y\<rfloor> then NInf else PInf)"
| "pow NaN (Fin y) = (if y = 0 then Fin 1 else NaN)"
| "pow _ _ = NaN"

fun sqrt_num :: "num \<Rightarrow> num" where
  "sqrt_num (Fin x) = (if x < 0 then NaN else Fin (sqrt x))"
| "sqrt_num PInf = PInf"
| "sqrt_num _ = NaN"

fun sin_num :: "num \<Rightarrow> num" where
  "sin_num (Fin x) = Fin (sin x)"
| "sin_num _ = NaN"

fun cos_num :: "num \<Rightarrow> num" where
  "cos_num (Fin x) = Fin (cos x)"
| "cos_num _ = NaN"

fun atan :: "num \<Rightarrow> num" where
  "atan (Fin x) = Fin (arctan x)"
| "atan PInf = Fin (pi / 2)"
| "atan NInf = Fin (- (pi / 2))"
| "atan NaN = NaN"

definition toRadians :: "num \<Rightarrow> num" where
  "toRadians d = d * Fin (pi / 180)"

definition toDegrees :: "num \<Rightarrow> num" where
  "toDegrees r = r * Fin (180 / pi)"

text \<open>
  \<open>Math.fmod\<close>: the remainder of the division truncated towards zero; it has the sign
  of the dividend.
\<close>

fun fmod :: "num \<Rightarrow> num \<Rightarrow> num" where
  "fmod (Fin x) (Fin y) =
     (if y = 0 then NaN
      else Fin (x - y * of_int (if 0 \<le> x / y then \<lfloor>x / y\<rfloor> else \<lceil>x / y\<rceil>)))"
| "fmod (Fin x) PInf = Fin x"
| "fmod (Fin x) NInf = Fin x"
| "fmod _ _ = NaN"

section \<open>HSLuv.js: the conversion chain\<close>

text \<open>
  An array of three numbers (\<open>[H, S, L]\<close>, \<open>[L, C, H]\<close>, \<open>[L, u, v]\<close>, \<open>[X, Y, Z]\<close>,
  \<open>[r, g, b]\<close>) is a triple, a \<open>vec4\<close> a quadruple.
\<close>

type_synonym triple = "num \<times> num \<times> num"
type_synonym vec4 = "num \<times> num \<times> num \<times> num"

definition REF_X :: num where "REF_X = Fin 0.95047"
definition REF_Y :: num where "REF_Y = Fin 1.0"
definition REF_Z :: num where "REF_Z = Fin 1.08883"

definition M00 :: num where "M00 = Fin 3.2404542"
definition M01 :: num where "M01 = Fin (- 1.5371385)"
definition M02 :: num where "M02 = Fin (- 0.4985314)"
definition M10 :: num where "M10 = Fin (- 0.9692660)"
definition M11 :: num where "M11 = Fin 1.8760108"
definition M12 :: num where "M12 = Fin 0.0415560"
definition M20 :: num where "M20 = Fin 0.0556434"
definition M21 :: num where "M21 = Fin (- 0.2040259)"
definition M22 :: num where "M22 = Fin 1.0572252"

definition PI :: num where "PI = Fin 3.141592653589793"
definition EPS :: num where "EPS = Fin (1 / 10 ^ 10)"
definition K :: num where "K = Fin 903.2962962"
definition E :: num where "E = Fin 0.0088564516"

definition sanitize :: "num \<Rightarrow> num" where
  "sanitize v = (if isnan v then Fin 0.0 else if isinf v then Fin 0.0 else v)"

definition clamp01 :: "num \<Rightarrow> num" where
  "clamp01 v = (if v < Fin 0.0 then Fin 0.0 else if v > Fin 1.0 then Fin 1.0 else v)"

definition myAtan2 :: "num \<Rightarrow> num \<Rightarrow> num" where
  "myAtan2 y_in x_in =
     (let y = sanitize y_in; x = sanitize x_in in
      if x > Fin 0.0 then atan (y / x)
      else if x < Fin 0.0 \<and> y \<ge> Fin 0.0 then atan (y / x) + PI
      else if x < Fin 0.0 \<and> y < Fin 0.0 then atan (y / x) - PI
      else if x = Fin 0.0 \<and> y > Fin 0.0 then PI / Fin 2.0
      else if x = Fin 0.0 \<and> y < Fin 0.0 then - PI / Fin 2.0
      else Fin 0.0)"

definition srgbCompanding :: "num \<Rightarrow> num" where
  "srgbCompanding c =
     (let c_sanitized = sanitize c in
      if c_sanitized \<le> Fin 0.0031308 then Fin 12.92 * c_sanitized
      else Fin 1.055 * pow c_sanitized (Fin 1.0 / Fin 2.4) - Fin 0.055)"

definition srgbInverseCompanding :: "num \<Rightarrow> num" where
  "srgbInverseCompanding c =
     (let c_sanitized = range_num (sanitize c) (Fin 0.0) (Fin 1.0) in
      if c_sanitized \<le> Fin 0.04045 then c_sanitized / Fin 12.92
      else pow ((c_sanitized + Fin 0.055) / Fin 1.055) (Fin 2.4))"

subsection \<open>The gamut boundary\<close>

text \<open>\<open>pushLine_safe\<close> returns the line \<open>[m, b]\<close>, or \<open>null\<close> (here \<open>None\<close>).\<close>

definition pushLine_safe :: "num \<Rightarrow> num \<Rightarrow> num \<Rightarrow> num \<Rightarrow> num \<Rightarrow> (num \<times> num) option" where
  "pushLine_safe mc0 mc1 mc2 L t =
     (let mc0_s = sanitize mc0; mc1_s = sanitize mc1; mc2_s = sanitize mc2;
          L_s = sanitize L; t_s = sanitize t;
          sub1 = pow ((L_s + Fin 16.0) / Fin 116.0) (Fin 3.0);
          sub2 = sanitize (if sub1 > E then sub1 else L_s / K)
      in if \<bar>sub2\<bar> < EPS then None
      else
        let top1 = (Fin 284517.0 * mc0_s - Fin 94839.0 * mc2_s) * sub2;
            top2 = (Fin 838422.0 * mc2_s + Fin 769860.0 * mc1_s + Fin 731718.0 * mc0_s)
                     * sub2 * L_s - Fin 769860.0 * t_s * L_s;
            bottom = sanitize ((Fin 632260.0 * mc2_s - Fin 126452.0 * mc1_s) * sub2
                       + Fin 126452.0 * t_s)
        in if \<bar>bottom\<bar> < EPS then None
        else
          let m = top1 / bottom; b = top2 / bottom
          in if isnan m \<or> isinf m \<or> isnan b \<or> isinf b then None
             else Some (sanitize m, sanitize b))"

text \<open>
  \<open>getBounds\<close>: for each of the three rows of the matrix, the line of the lower bound
  (\<open>t = 0\<close>) and then that of the upper bound (\<open>t = 1\<close>), each pushed when it is not
  \<open>null\<close>. (The locals \<open>sub1\<close> and \<open>sub2\<close> of \<open>getBounds\<close> are never read.)
\<close>

definition bounds_m :: "(num \<times> num \<times> num) list" where
  "bounds_m =
     [(Fin 3.240969941904521, Fin (- 1.537383177570093), Fin (- 0.498610760293)),
      (Fin (- 0.96924363628087), Fin 1.87596750150772, Fin 0.041555057407175),
      (Fin 0.055630079696993, Fin (- 0.20397695888897), Fin 1.056971514242878)]"

fun getBounds_loop :: "(num \<times> num \<times> num) list \<Rightarrow> num \<Rightarrow> (num \<times> num) list \<Rightarrow> (num \<times> num) list" where
  "getBounds_loop [] L result = result"
| "getBounds_loop ((mc0, mc1, mc2) # rows) L result =
     (let line0 = pushLine_safe mc0 mc1 mc2 L (Fin 0);
          result = (case line0 of None \<Rightarrow> result | Some l \<Rightarrow> result @ [l]);
          line1 = pushLine_safe mc0 mc1 mc2 L (Fin 1);
          result = (case line1 of None \<Rightarrow> result | Some l \<Rightarrow> result @ [l])
      in getBounds_loop rows L result)"

definition getBounds :: "num \<Rightarrow> (num \<times> num) list" where
  "getBounds L = getBounds_loop bounds_m L []"

text \<open>The loop of \<open>maxChromaForLH\<close> over the lines, with \<open>minLength\<close> as its state.\<close>

fun maxChroma_loop :: "num \<Rightarrow> (num \<times> num) list \<Rightarrow> num \<Rightarrow> num" where
  "maxChroma_loop hRad [] minLength = minLength"
| "maxChroma_loop hRad ((slope, intercept) # bounds) minLength =
     (let length = intercept / (sin_num hRad - slope * cos_num hRad)
      in maxChroma_loop hRad bounds
           (if length \<ge> Fin 0 \<and> length < minLength then length else minLength))"

definition maxChromaForLH :: "num \<Rightarrow> num \<Rightarrow> num" where
  "maxChromaForLH L H =
     (let hRad = toRadians H; bounds = getBounds L; minLength = Fin (10 ^ 10)
      in maxChroma_loop hRad bounds minLength)"

subsection \<open>Forward: HSLuv to RGB\<close>

fun hsluvToLch :: "triple \<Rightarrow> triple" where
  "hsluvToLch (H0, S0, L0) =
     (let H = sanitize H0; S = sanitize S0; L = sanitize L0 in
      if L < EPS \<or> L > Fin 99.99999 then (L, Fin 0.0, H)
      else
        let maxC = maxChromaForLH L H in
        if maxC \<le> EPS then (L, Fin 0.0, H)
        else
          let Sat = range_num S (Fin 0.0) (Fin 100.0);
              C = sanitize (maxC * (Sat / Fin 100.0))
          in (L, C, H))"

fun lchToLuv :: "triple \<Rightarrow> triple" where
  "lchToLuv (L0, C0, H0) =
     (let L = sanitize L0; C = sanitize C0; H = sanitize H0;
          Hrad = toRadians H;
          u = sanitize (C * cos_num Hrad);
          v = sanitize (C * sin_num Hrad)
      in (L, u, v))"

fun luvToXyz :: "triple \<Rightarrow> triple" where
  "luvToXyz (L0, u0, v0) =
     (let L = sanitize L0; u = sanitize u0; v = sanitize v0;
          Y = (if L \<le> Fin 8 then L * REF_Y / Fin 903.3
               else pow ((L + Fin 16) / Fin 116) (Fin 3) * REF_Y);
          Uref = Fin 4.0 * REF_X / (REF_X + Fin 15.0 * REF_Y + Fin 3.0 * REF_Z);
          Vref = Fin 9.0 * REF_Y / (REF_X + Fin 15.0 * REF_Y + Fin 3.0 * REF_Z);
          U = (if L < EPS then Uref else u / (Fin 13.0 * L) + Uref);
          V = (if L < EPS then Vref else v / (Fin 13.0 * L) + Vref);
          denom = Fin 4.0 * V;
          denom = (if \<bar>denom\<bar> < EPS then EPS else denom);
          X = Y * Fin 9.0 * U / denom;
          Z = Y * (Fin 12.0 - Fin 3.0 * U - Fin 20.0 * V) / denom
      in (X, Y, Z))"

fun xyzToRgb :: "triple \<Rightarrow> triple" where
  "xyzToRgb (X, Y, Z) =
     (let x = sanitize X; y = sanitize Y; z = sanitize Z;
          r_lin = x * M00 + y * M01 + z * M02;
          g_lin = x * M10 + y * M11 + z * M12;
          b_lin = x * M20 + y * M21 + z * M22;
          r = srgbCompanding r_lin;
          g = srgbCompanding g_lin;
          b = srgbCompanding b_lin
      in (clamp01 (sanitize r), clamp01 (sanitize g), clamp01 (sanitize b)))"

subsection \<open>Backward: RGB to HSLuv\<close>

fun rgbToXyz :: "triple \<Rightarrow> triple" where
  "rgbToXyz (R, G, B) =
     (let r = sanitize R; g = sanitize G; b = sanitize B;
          R_lin = srgbInverseCompanding r;
          G_lin = srgbInverseCompanding g;
          B_lin = srgbInverseCompanding b;
          x = R_lin * Fin 0.4124564 + G_lin * Fin 0.3575761 + B_lin * Fin 0.1804375;
          y_out = R_lin * Fin 0.2126729 + G_lin * Fin 0.7151522 + B_lin * Fin 0.0721750;
          z = R_lin * Fin 0.0193339 + G_lin * Fin 0.1191920 + B_lin * Fin 0.9503041
      in (sanitize x, sanitize y_out, sanitize z))"

fun xyzToLuv :: "triple \<Rightarrow> triple" where
  "xyzToLuv (X, Y, Z) =
     (let x = sanitize X; y = sanitize Y; z = sanitize Z;
          denom = x + Fin 15.0 * y + Fin 3.0 * z
      in if \<bar>denom\<bar> < EPS then (Fin 0.0, Fin 0.0, Fin 0.0)
      else
        let Yr = y / REF_Y;
            L = (if Yr > E then Fin 116.0 * pow Yr (Fin 1.0 / Fin 3.0) - Fin 16.0
                 else K * Yr);
            U' = Fin 4.0 * x / denom;
            V' = Fin 9.0 * y / denom;
            Uref = Fin 4.0 * REF_X / (REF_X + Fin 15.0 * REF_Y + Fin 3.0 * REF_Z);
            Vref = Fin 9.0 * REF_Y / (REF_X + Fin 15.0 * REF_Y + Fin 3.0 * REF_Z);
            u = Fin 13.0 * L * (U' - Uref);
            v = Fin 13.0 * L * (V' - Vref)
        in (sanitize L, sanitize u, sanitize v))"

fun luvToLch :: "triple \<Rightarrow> triple" where
  "luvToLch (L0, u0, v0) =
     (let L = sanitize L0; u = sanitize u0; v = sanitize v0;
          C = sqrt_num (u * u + v * v);
          Hrad = myAtan2 v u;
          Hdeg = toDegrees Hrad;
          Hdeg = (if Hdeg < Fin 0.0 then Hdeg + Fin 360.0 else Hdeg)
      in (L, sanitize C, sanitize Hdeg))"

fun lchToHsluv :: "triple \<Rightarrow> triple" where
  "lchToHsluv (L, C, H) =
     (if L < EPS \<or> L > Fin 99.99999 then (H, Fin 0.0, L)
      else
        let maxC = maxChromaForLH L H in
        if maxC \<le> EPS then (H, Fin 0.0, L)
        else
          let S = (C / maxC) * Fin 100.0;
              S = range_num (sanitize S) (Fin 0.0) (Fin 100.0)
          in (H, S, L))"

subsection \<open>The main conversions\<close>

definition hsluvToRgb :: "triple \<Rightarrow> triple" where
  "hsluvToRgb HSL = xyzToRgb (luvToXyz (lchToLuv (hsluvToLch HSL)))"

definition rgbToHsluv :: "triple \<Rightarrow> triple" where
  "rgbToHsluv RGB = lchToHsluv (luvToLch (xyzToLuv (rgbToXyz RGB)))"

subsection \<open>To and from the host's colours\<close>

text \<open>
  \<open>Colours.fromVec4\<close> and \<open>Colours.toVec4\<close> belong to the host application, not to the
  scripts: \<open>toColour\<close> is modelled up to the \<open>vec4\<close> it hands to \<open>Colours.fromVec4\<close>, and
  \<open>fromColour\<close> from the \<open>vec4\<close> that \<open>Colours.toVec4\<close> returns.
\<close>

definition toVec4 :: "triple \<Rightarrow> vec4" where
  "toVec4 HSL = (case hsluvToRgb HSL of (r, g, b) \<Rightarrow> (r, g, b, Fin 1.0))"

text \<open>The body of the loop over the four entries of the \<open>vec4\<close>.\<close>

definition limit01 :: "num \<Rightarrow> num" where
  "limit01 v = (if isnan v \<or> isinf v then Fin 0.0 else range_num v (Fin 0.0) (Fin 1.0))"

definition toColour :: "triple \<Rightarrow> vec4" where
  "toColour HSL =
     (case toVec4 HSL of (r, g, b, a) \<Rightarrow> (limit01 r, limit01 g, limit01 b, limit01 a))"

definition fromVec4 :: "vec4 \<Rightarrow> triple" where
  "fromVec4 v = (case v of (r, g, b, a) \<Rightarrow> rgbToHsluv (sanitize r, sanitize g, sanitize b))"

text \<open>The body of the loop over the three entries of the result.\<close>

definition zero_nonfinite :: "num \<Rightarrow> num" where
  "zero_nonfinite v = (if isnan v \<or> isinf v then Fin 0.0 else v)"

definition fromColour :: "vec4 \<Rightarrow> triple" where
  "fromColour v =
     (case fromVec4 v of (h, s, l) \<Rightarrow>
        (range_num (zero_nonfinite h) (Fin 0.0) (Fin 360.0),
         range_num (zero_nonfinite s) (Fin 0.0) (Fin 100.0),
         range_num (zero_nonfinite l) (Fin 0.0) (Fin 100.0)))"

subsection \<open>HSLuv tools\<close>

definition toLinear :: "num \<Rightarrow> num" where
  "toLinear c =
     (if c \<le> Fin 0.04045 then c / Fin 12.92 else pow ((c + Fin 0.055) / Fin 1.055) (Fin 2.4))"

definition getLuminance :: "triple \<Rightarrow> num" where
  "getLuminance hsluv =
     (case toVec4 hsluv of (r0, g0, b0, a) \<Rightarrow>
        let r = toLinear r0; g = toLinear g0; b = toLinear b0
        in Fin 0.2126 * r + Fin 0.7152 * g + Fin 0.0722 * b)"

definition chooseHighContrastBW :: "triple \<Rightarrow> triple" where
  "chooseHighContrastBW hsluv =
     (let Lv = getLuminance hsluv
      in if Lv > Fin 0.5 then (Fin 0, Fin 0, Fin 0) else (Fin 0, Fin 0, Fin 100))"

section \<open>The palette generator\<close>

definition getTextCol :: "triple \<Rightarrow> vec4" where
  "getTextCol bgHsluv = toColour (chooseHighContrastBW bgHsluv)"

text \<open>
  The five arrays that \<open>generateButtonPalette\<close> derives from \<open>primary\<close>, the HSLuv form
  of the base colour, before it converts them to colours.
\<close>

record derived =
  d_hover :: triple
  d_clicked :: triple
  d_disabled :: triple
  d_focus :: triple
  d_focusOutline :: triple

fun deriveStates :: "triple \<Rightarrow> derived" where
  "deriveStates (pH, pS, pL) =
     (let hover = (pH, pS, if pL > Fin 80.0 then pL - Fin 10.0 else pL + Fin 10.0);
          clicked = (pH, pS, if pL < Fin 20.0 then pL + Fin 15.0 else pL - Fin 15.0);
          disabledL = (pL * Fin 0.5) + Fin 25.0;
          disabledL =
            (if pS < Fin 35.0 then
               (if \<bar>disabledL - pL\<bar> < Fin 15.0 then disabledL + Fin 20.0 else disabledL)
             else disabledL);
          disabled = (pH, Fin 20.0, disabledL);
          focus = (fst hover, fst (snd hover), snd (snd hover));
          focusOutline =
            (fmod (fst focus + Fin 180.0) (Fin 360.0),
             Fin 100.0,
             if pL > Fin 60.0 then Fin 20.0 else Fin 90.0)
      in \<lparr> d_hover = hover, d_clicked = clicked, d_disabled = disabled,
           d_focus = focus, d_focusOutline = focusOutline \<rparr>)"

record entry =
  background :: vec4
  text_col :: vec4

record palette =
  p_normal :: entry
  p_hover :: entry
  p_clicked :: entry
  p_disabled :: entry
  p_focus :: entry
  p_focus_outline :: vec4

text \<open>The base colour is given by its \<open>vec4\<close>.\<close>

definition generateButtonPalette :: "vec4 \<Rightarrow> palette" where
  "generateButtonPalette baseColour =
     (let primary = fromColour baseColour; d = deriveStates primary
      in \<lparr> p_normal = \<lparr> background = baseColour, text_col = getTextCol primary \<rparr>,
           p_hover = \<lparr> background = toColour (d_hover d), text_col = getTextCol (d_hover d) \<rparr>,
           p_clicked =
             \<lparr> background = toColour (d_clicked d), text_col = getTextCol (d_clicked d) \<rparr>,
           p_disabled =
             \<lparr> background = toColour (d_disabled d), text_col = getTextCol (d_disabled d) \<rparr>,
           p_focus = \<lparr> background = toColour (d_focus d), text_col = getTextCol (d_focus d) \<rparr>,
           p_focus_outline = toColour (d_focusOutline d) \<rparr>)"

section \<open>The state of the button\<close>

record stateFlags =
  disabled :: bool
  clicked :: bool
  hover :: bool
  focus :: bool
  forceFocus :: bool

definition resolveButtonState :: "stateFlags \<Rightarrow> string" where
  "resolveButtonState flags =
     (if disabled flags then ''disabled''
      else if forceFocus flags then ''focus''
      else if clicked flags then ''clicked''
      else if hover flags then ''hover''
      else if focus flags then ''focus''
      else ''normal'')"

section \<open>Notions of the specification\<close>

text \<open>The third entry of an array: the lightness of an \<open>[H, S, L]\<close>.\<close>

definition third :: "triple \<Rightarrow> num" where
  "third t = snd (snd t)"

text \<open>
  The specification's ``first matching flag wins'': a list of flags with the name each
  one selects, read in order, and the name left when no flag is set.
\<close>

fun first_match :: "(bool \<times> string) list \<Rightarrow> string \<Rightarrow> string" where
  "first_match [] d = d"
| "first_match ((b, n) # xs) d = (if b then n else first_match xs d)"

text \<open>The specification's \<open>x mod 360\<close> on the reals, with a result in \<open>[0, 360)\<close>.\<close>

definition spec_mod360 :: "real \<Rightarrow> real" where
  "spec_mod360 x = x - 360 * of_int \<lfloor>x / 360\<rfloor>"

text \<open>
  The length along the ray at angle \<open>hRad\<close> to its intersection with a boundary line,
  \<open>intercept / (sin(H) - slope * cos(H))\<close>; the lengths for all lines of a lightness; and
  those of them that are finite and not negative.
\<close>

definition rayLength :: "num \<Rightarrow> num \<times> num \<Rightarrow> num" where
  "rayLength hRad line =
     (case line of (slope, intercept) \<Rightarrow> intercept / (sin_num hRad - slope * cos_num hRad))"

definition rayLengths :: "num \<Rightarrow> num \<Rightarrow> num list" where
  "rayLengths L H = map (rayLength (toRadians H)) (getBounds L)"

definition nonneg_lengths :: "num list \<Rightarrow> real set" where
  "nonneg_lengths ls = {x. 0 \<le> x \<and> Fin x \<in> set ls}"

section \<open>Closed forms for the evaluation of a round trip\<close>

text \<open>
  When the lightness \<open>L\<close> satisfies \<open>((L + 16) / 116)\<^sup>3 = y\<close> with \<open>y\<close> above the
  threshold \<open>E\<close>, the line that \<open>pushLine_safe\<close> computes for a row \<open>(a, b, c)\<close> of the
  matrix and a bound \<open>t\<close> has the slope \<open>line_slope y row t\<close> and the intercept
  \<open>L * line_icpt y row t\<close>. Along the ray with \<open>tan(H) = q\<close> its length is
  \<open>L * sqrt (1 + q\<^sup>2) * ray_factor y q row t\<close>.
\<close>

definition line_bottom :: "real \<Rightarrow> real \<times> real \<times> real \<Rightarrow> real \<Rightarrow> real" where
  "line_bottom y row t = (case row of (a, b, c) \<Rightarrow> (632260 * c - 126452 * b) * y + 126452 * t)"

definition line_slope :: "real \<Rightarrow> real \<times> real \<times> real \<Rightarrow> real \<Rightarrow> real" where
  "line_slope y row t =
     (case row of (a, b, c) \<Rightarrow> (284517 * a - 94839 * c) * y / line_bottom y row t)"

definition line_icpt :: "real \<Rightarrow> real \<times> real \<times> real \<Rightarrow> real \<Rightarrow> real" where
  "line_icpt y row t =
     (case row of (a, b, c) \<Rightarrow>
        ((838422 * c + 769860 * b + 731718 * a) * y - 769860 * t) / line_bottom y row t)"

definition ray_factor :: "real \<Rightarrow> real \<Rightarrow> real \<times> real \<times> real \<Rightarrow> real \<Rightarrow> real" where
  "ray_factor y q row t = line_icpt y row t / (q - line_slope y row t)"

text \<open>The rows of the matrix \<open>m\<close> of \<open>getBounds\<close> as reals, and each row with both bounds.\<close>

definition gamut_rows :: "(real \<times> real \<times> real) list" where
  "gamut_rows =
     [(3.240969941904521, - 1.537383177570093, - 0.498610760293),
      (- 0.96924363628087, 1.87596750150772, 0.041555057407175),
      (0.055630079696993, - 0.20397695888897, 1.056971514242878)]"

definition gamut_rows_t :: "((real \<times> real \<times> real) \<times> real) list" where
  "gamut_rows_t = concat (map (\<lambda>row. [(row, 0), (row, 1)]) gamut_rows)"

text \<open>
  The values met on the way of pure yellow \<open>[1, 1, 0]\<close> to HSLuv and back. Its \<open>XYZ\<close> is
  \<open>(0.7700325, 0.9278251, 0.1385259)\<close>, with \<open>X + 15 Y + 3 Z = 15.1029867\<close>; the reference
  white has \<open>X + 15 Y + 3 Z = 19.21696\<close>. Backward: the lightness, \<open>u / L\<close> and \<open>v / L\<close>,
  the tangent of the hue, the hue in degrees, \<open>sqrt (1 + q\<^sup>2)\<close>, the ray factor of the
  line that bounds the chroma (first row, upper bound) and the maximum chroma. Forward:
  \<open>u'\<close> and \<open>v'\<close>, \<open>X\<close> and \<open>Z\<close>, and the blue channel.
\<close>

definition yellow_L :: real where
  "yellow_L = 116 * 0.9278251 powr (1 / 3) - 16"

definition yellow_du :: real where
  "yellow_du = 13 * (4 * 0.7700325 / 15.1029867 - 4 * 0.95047 / 19.21696)"

definition yellow_dv :: real where
  "yellow_dv = 13 * (9 * 0.9278251 / 15.1029867 - 9 / 19.21696)"

definition yellow_q :: real where
  "yellow_q = yellow_dv / yellow_du"

definition yellow_H :: real where
  "yellow_H = arctan yellow_q * (180 / pi)"

definition yellow_s :: real where
  "yellow_s = sqrt (1 + yellow_q\<^sup>2)"

definition yellow_rho :: real where
  "yellow_rho =
     ray_factor 0.9278251 yellow_q (3.240969941904521, - 1.537383177570093, - 0.498610760293) 1"

definition yellow_maxC :: real where
  "yellow_maxC = yellow_L * yellow_s * yellow_rho"

definition yellow_U :: real where
  "yellow_U = yellow_rho / 13 + 4 * 0.95047 / 19.21696"

definition yellow_V :: real where
  "yellow_V = yellow_rho * yellow_q / 13 + 9 / 19.21696"

definition yellow_X :: real where
  "yellow_X = 0.9278251 * 9 * yellow_U / (4 * yellow_V)"

definition yellow_Z :: real where
  "yellow_Z = 0.9278251 * (12 - 3 * yellow_U - 20 * yellow_V) / (4 * yellow_V)"

definition yellow_blue :: real where
  "yellow_blue =
     12.92 * (yellow_X * 0.0556434 + 0.9278251 * (- 0.2040259) + yellow_Z * 1.0572252)"

section \<open>Double precision\<close>

text \<open>
  Where a property depends on the rounding or on the overflow of the arithmetic, the exact
  reals above say too much. The second model of the numbers is that of the machine: a
  number is a real that a double holds, an infinity or not-a-number, and every operation
  rounds its exact result to the nearest double, ties to the even one, and gives an
  infinity when the rounded result is \<open>2 ^ 1024\<close> or more in size. A double near \<open>x\<close> is a
  multiple of \<open>2 powr e\<close>, with \<open>e = \<lfloor>log 2 \<bar>x\<bar>\<rfloor> - 52\<close> and at least \<open>-1074\<close>. The sign of zero is
  not modelled.
\<close>

datatype dbl = Dbl real | PosInf | NegInf | NotNum

definition ulp_exp :: "real \<Rightarrow> int" where
  "ulp_exp x = max (- 1074) (\<lfloor>log 2 \<bar>x\<bar>\<rfloor> - 52)"

text \<open>The nearest integer, the even one of two that are equally near.\<close>

definition rne :: "real \<Rightarrow> int" where
  "rne q =
     (let f = \<lfloor>q\<rfloor>; d = q - real_of_int f
      in if d < 1 / 2 then f else if 1 / 2 < d then f + 1 else if even f then f else f + 1)"

definition round_real :: "real \<Rightarrow> real" where
  "round_real x =
     (if x = 0 then 0
      else real_of_int (rne (x / 2 powr real_of_int (ulp_exp x))) * 2 powr real_of_int (ulp_exp x))"

definition round64 :: "real \<Rightarrow> dbl" where
  "round64 x =
     (let r = round_real x
      in if 2 ^ 1024 \<le> \<bar>r\<bar> then (if 0 < x then PosInf else NegInf) else Dbl r)"

text \<open>A literal of the source is the double nearest to the decimal number written.\<close>

definition lit :: "real \<Rightarrow> dbl" where
  "lit x = round64 x"

fun isnan_d :: "dbl \<Rightarrow> bool" where
  "isnan_d NotNum = True"
| "isnan_d _ = False"

fun isinf_d :: "dbl \<Rightarrow> bool" where
  "isinf_d PosInf = True"
| "isinf_d NegInf = True"
| "isinf_d _ = False"

instantiation dbl :: "{plus, uminus, minus, times, inverse, abs, ord}"
begin

fun plus_dbl :: "dbl \<Rightarrow> dbl \<Rightarrow> dbl" where
  "Dbl a + Dbl b = round64 (a + b)"
| "NotNum + _ = NotNum"
| "_ + NotNum = NotNum"
| "PosInf + NegInf = NotNum"
| "NegInf + PosInf = NotNum"
| "PosInf + _ = PosInf"
| "_ + PosInf = PosInf"
| "NegInf + _ = NegInf"
| "_ + NegInf = NegInf"

fun uminus_dbl :: "dbl \<Rightarrow> dbl" where
  "- Dbl a = Dbl (- a)"
| "- PosInf = NegInf"
| "- NegInf = PosInf"
| "- NotNum = NotNum"

definition minus_dbl :: "dbl \<Rightarrow> dbl \<Rightarrow> dbl" where
  "x - y = x + (- y :: dbl)"

fun times_dbl :: "dbl \<Rightarrow> dbl \<Rightarrow> dbl" where
  "Dbl a * Dbl b = round64 (a * b)"
| "NotNum * _ = NotNum"
| "_ * NotNum = NotNum"
| "Dbl a * PosInf = (if a = 0 then NotNum else if 0 < a then PosInf else NegInf)"
| "Dbl a * NegInf = (if a = 0 then NotNum else if 0 < a then NegInf else PosInf)"
| "PosInf * Dbl b = (if b = 0 then NotNum else if 0 < b then PosInf else NegInf)"
| "NegInf * Dbl b = (if b = 0 then NotNum else if 0 < b then NegInf else PosInf)"
| "PosInf * PosInf = PosInf"
| "PosInf * NegInf = NegInf"
| "NegInf * PosInf = NegInf"
| "NegInf * NegInf = PosInf"

fun divide_dbl :: "dbl \<Rightarrow> dbl \<Rightarrow> dbl" where
  "Dbl a div Dbl b =
     (if b = 0 then (if a = 0 then NotNum else if 0 < a then PosInf else NegInf)
      else round64 (a / b))"
| "NotNum div _ = NotNum"
| "_ div NotNum = NotNum"
| "Dbl a div PosInf = Dbl 0"
| "Dbl a div NegInf = Dbl 0"
| "PosInf div Dbl b = (if 0 \<le> b then PosInf else NegInf)"
| "NegInf div Dbl b = (if 0 \<le> b then NegInf else PosInf)"
| "PosInf div PosInf = NotNum"
| "PosInf div NegInf = NotNum"
| "NegInf div PosInf = NotNum"
| "NegInf div NegInf = NotNum"

definition inverse_dbl :: "dbl \<Rightarrow> dbl" where
  "inverse x = Dbl 1 div (x :: dbl)"

fun abs_dbl :: "dbl \<Rightarrow> dbl" where
  "\<bar>Dbl a\<bar> = Dbl \<bar>a\<bar>"
| "\<bar>PosInf\<bar> = PosInf"
| "\<bar>NegInf\<bar> = PosInf"
| "\<bar>NotNum\<bar> = NotNum"

fun less_dbl :: "dbl \<Rightarrow> dbl \<Rightarrow> bool" where
  "Dbl a < Dbl b = (a < b)"
| "NotNum < _ = False"
| "_ < NotNum = False"
| "PosInf < _ = False"
| "_ < PosInf = True"
| "_ < NegInf = False"
| "NegInf < _ = True"

fun less_eq_dbl :: "dbl \<Rightarrow> dbl \<Rightarrow> bool" where
  "Dbl a \<le> Dbl b = (a \<le> b)"
| "NotNum \<le> _ = False"
| "_ \<le> NotNum = False"
| "_ \<le> PosInf = True"
| "NegInf \<le> _ = True"
| "PosInf \<le> _ = False"
| "_ \<le> NegInf = False"

instance ..

end

text \<open>
  The functions of the \<open>Math\<close> object round the exact value of the function to the nearest
  double. (A library may be off by a unit in the last place; no result below depends on
  more than a bound of the value.) \<open>Math.toRadians\<close> and \<open>Math.toDegrees\<close> multiply by the
  quotient of \<open>\<pi>\<close> and 180, computed in doubles.
\<close>

definition range_d :: "dbl \<Rightarrow> dbl \<Rightarrow> dbl \<Rightarrow> dbl" where
  "range_d v lo hi = (if v < lo then lo else if hi < v then hi else v)"

fun pow_d :: "dbl \<Rightarrow> dbl \<Rightarrow> dbl" where
  "pow_d (Dbl x) (Dbl y) =
     (if y = of_int \<lfloor>y\<rfloor> then
        (if 0 \<le> y then round64 (x ^ nat \<lfloor>y\<rfloor>)
         else if x = 0 then PosInf else round64 (1 / x ^ nat \<lfloor>- y\<rfloor>))
      else if x < 0 then NotNum
      else if x = 0 then (if 0 < y then Dbl 0 else PosInf)
      else round64 (x powr y))"
| "pow_d PosInf (Dbl y) = (if 0 < y then PosInf else if y = 0 then Dbl 1 else Dbl 0)"
| "pow_d NegInf (Dbl y) =
     (if y = 0 then Dbl 1 else if y < 0 then Dbl 0
      else if y = of_int \<lfloor>y\<rfloor> \<and> odd \<lfloor>y\<rfloor> then NegInf else PosInf)"
| "pow_d NotNum (Dbl y) = (if y = 0 then Dbl 1 else NotNum)"
| "pow_d _ _ = NotNum"

fun sqrt_d :: "dbl \<Rightarrow> dbl" where
  "sqrt_d (Dbl x) = (if x < 0 then NotNum else round64 (sqrt x))"
| "sqrt_d PosInf = PosInf"
| "sqrt_d _ = NotNum"

fun sin_d :: "dbl \<Rightarrow> dbl" where
  "sin_d (Dbl x) = round64 (sin x)"
| "sin_d _ = NotNum"

fun cos_d :: "dbl \<Rightarrow> dbl" where
  "cos_d (Dbl x) = round64 (cos x)"
| "cos_d _ = NotNum"

fun atan_d :: "dbl \<Rightarrow> dbl" where
  "atan_d (Dbl x) = round64 (arctan x)"
| "atan_d PosInf = round64 (pi / 2)"
| "atan_d NegInf = round64 (- (pi / 2))"
| "atan_d NotNum = NotNum"

definition toRadians_d :: "dbl \<Rightarrow> dbl" where
  "toRadians_d d = d * (round64 pi / lit 180)"

definition toDegrees_d :: "dbl \<Rightarrow> dbl" where
  "toDegrees_d r = r * (lit 180 / round64 pi)"

subsection \<open>The conversion chain in double precision\<close>

text \<open>
  The functions of \<open>HSLuv.js\<close> once more, word for word, over the doubles: \<open>f_d\<close> is the
  function \<open>f\<close> of the source.
\<close>

type_synonym triple_d = "dbl \<times> dbl \<times> dbl"
type_synonym vec4_d = "dbl \<times> dbl \<times> dbl \<times> dbl"

definition REF_X_d :: dbl where "REF_X_d = lit 0.95047"
definition REF_Y_d :: dbl where "REF_Y_d = lit 1.0"
definition REF_Z_d :: dbl where "REF_Z_d = lit 1.08883"

definition M00_d :: dbl where "M00_d = lit 3.2404542"
definition M01_d :: dbl where "M01_d = (- lit 1.5371385)"
definition M02_d :: dbl where "M02_d = (- lit 0.4985314)"
definition M10_d :: dbl where "M10_d = (- lit 0.9692660)"
definition M11_d :: dbl where "M11_d = lit 1.8760108"
definition M12_d :: dbl where "M12_d = lit 0.0415560"
definition M20_d :: dbl where "M20_d = lit 0.0556434"
definition M21_d :: dbl where "M21_d = (- lit 0.2040259)"
definition M22_d :: dbl where "M22_d = lit 1.0572252"

definition PI_d :: dbl where "PI_d = lit 3.141592653589793"
definition EPS_d :: dbl where "EPS_d = lit (1 / 10 ^ 10)"
definition K_d :: dbl where "K_d = lit 903.2962962"
definition E_d :: dbl where "E_d = lit 0.0088564516"

definition sanitize_d :: "dbl \<Rightarrow> dbl" where
  "sanitize_d v = (if isnan_d v then lit 0.0 else if isinf_d v then lit 0.0 else v)"

definition clamp01_d :: "dbl \<Rightarrow> dbl" where
  "clamp01_d v = (if v < lit 0.0 then lit 0.0 else if v > lit 1.0 then lit 1.0 else v)"

definition myAtan2_d :: "dbl \<Rightarrow> dbl \<Rightarrow> dbl" where
  "myAtan2_d y_in x_in =
     (let y = sanitize_d y_in; x = sanitize_d x_in in
      if x > lit 0.0 then atan_d (y / x)
      else if x < lit 0.0 \<and> y \<ge> lit 0.0 then atan_d (y / x) + PI_d
      else if x < lit 0.0 \<and> y < lit 0.0 then atan_d (y / x) - PI_d
      else if x = lit 0.0 \<and> y > lit 0.0 then PI_d / lit 2.0
      else if x = lit 0.0 \<and> y < lit 0.0 then - PI_d / lit 2.0
      else lit 0.0)"

definition srgbCompanding_d :: "dbl \<Rightarrow> dbl" where
  "srgbCompanding_d c =
     (let c_sanitized = sanitize_d c in
      if c_sanitized \<le> lit 0.0031308 then lit 12.92 * c_sanitized
      else lit 1.055 * pow_d c_sanitized (lit 1.0 / lit 2.4) - lit 0.055)"

definition srgbInverseCompanding_d :: "dbl \<Rightarrow> dbl" where
  "srgbInverseCompanding_d c =
     (let c_sanitized = range_d (sanitize_d c) (lit 0.0) (lit 1.0) in
      if c_sanitized \<le> lit 0.04045 then c_sanitized / lit 12.92
      else pow_d ((c_sanitized + lit 0.055) / lit 1.055) (lit 2.4))"

definition pushLine_safe_d :: "dbl \<Rightarrow> dbl \<Rightarrow> dbl \<Rightarrow> dbl \<Rightarrow> dbl \<Rightarrow> (dbl \<times> dbl) option" where
  "pushLine_safe_d mc0 mc1 mc2 L t =
     (let mc0_s = sanitize_d mc0; mc1_s = sanitize_d mc1; mc2_s = sanitize_d mc2;
          L_s = sanitize_d L; t_s = sanitize_d t;
          sub1 = pow_d ((L_s + lit 16.0) / lit 116.0) (lit 3.0);
          sub2 = sanitize_d (if sub1 > E_d then sub1 else L_s / K_d)
      in if \<bar>sub2\<bar> < EPS_d then None
      else
        let top1 = (lit 284517.0 * mc0_s - lit 94839.0 * mc2_s) * sub2;
            top2 = (lit 838422.0 * mc2_s + lit 769860.0 * mc1_s + lit 731718.0 * mc0_s)
                     * sub2 * L_s - lit 769860.0 * t_s * L_s;
            bottom = sanitize_d ((lit 632260.0 * mc2_s - lit 126452.0 * mc1_s) * sub2
                       + lit 126452.0 * t_s)
        in if \<bar>bottom\<bar> < EPS_d then None
        else
          let m = top1 / bottom; b = top2 / bottom
          in if isnan_d m \<or> isinf_d m \<or> isnan_d b \<or> isinf_d b then None
             else Some (sanitize_d m, sanitize_d b))"

definition bounds_m_d :: "(dbl \<times> dbl \<times> dbl) list" where
  "bounds_m_d =
     [(lit 3.240969941904521, (- lit 1.537383177570093), (- lit 0.498610760293)),
      ((- lit 0.96924363628087), lit 1.87596750150772, lit 0.041555057407175),
      (lit 0.055630079696993, (- lit 0.20397695888897), lit 1.056971514242878)]"

fun getBounds_loop_d :: "(dbl \<times> dbl \<times> dbl) list \<Rightarrow> dbl \<Rightarrow> (dbl \<times> dbl) list \<Rightarrow> (dbl \<times> dbl) list" where
  "getBounds_loop_d [] L result = result"
| "getBounds_loop_d ((mc0, mc1, mc2) # rows) L result =
     (let line0 = pushLine_safe_d mc0 mc1 mc2 L (lit 0);
          result = (case line0 of None \<Rightarrow> result | Some l \<Rightarrow> result @ [l]);
          line1 = pushLine_safe_d mc0 mc1 mc2 L (lit 1);
          result = (case line1 of None \<Rightarrow> result | Some l \<Rightarrow> result @ [l])
      in getBounds_loop_d rows L result)"

definition getBounds_d :: "dbl \<Rightarrow> (dbl \<times> dbl) list" where
  "getBounds_d L = getBounds_loop_d bounds_m_d L []"

fun maxChroma_loop_d :: "dbl \<Rightarrow> (dbl \<times> dbl) list \<Rightarrow> dbl \<Rightarrow> dbl" where
  "maxChroma_loop_d hRad [] minLength = minLength"
| "maxChroma_loop_d hRad ((slope, intercept) # bounds) minLength =
     (let length = intercept / (sin_d hRad - slope * cos_d hRad)
      in maxChroma_loop_d hRad bounds
           (if length \<ge> lit 0 \<and> length < minLength then length else minLength))"

definition maxChromaForLH_d :: "dbl \<Rightarrow> dbl \<Rightarrow> dbl" where
  "maxChromaForLH_d L H =
     (let hRad = toRadians_d H; bounds = getBounds_d L; minLength = lit (10 ^ 10)
      in maxChroma_loop_d hRad bounds minLength)"

fun hsluvToLch_d :: "triple_d \<Rightarrow> triple_d" where
  "hsluvToLch_d (H0, S0, L0) =
     (let H = sanitize_d H0; S = sanitize_d S0; L = sanitize_d L0 in
      if L < EPS_d \<or> L > lit 99.99999 then (L, lit 0.0, H)
      else
        let maxC = maxChromaForLH_d L H in
        if maxC \<le> EPS_d then (L, lit 0.0, H)
        else
          let Sat = range_d S (lit 0.0) (lit 100.0);
              C = sanitize_d (maxC * (Sat / lit 100.0))
          in (L, C, H))"

fun lchToLuv_d :: "triple_d \<Rightarrow> triple_d" where
  "lchToLuv_d (L0, C0, H0) =
     (let L = sanitize_d L0; C = sanitize_d C0; H = sanitize_d H0;
          Hrad = toRadians_d H;
          u = sanitize_d (C * cos_d Hrad);
          v = sanitize_d (C * sin_d Hrad)
      in (L, u, v))"

fun luvToXyz_d :: "triple_d \<Rightarrow> triple_d" where
  "luvToXyz_d (L0, u0, v0) =
     (let L = sanitize_d L0; u = sanitize_d u0; v = sanitize_d v0;
          Y = (if L \<le> lit 8 then L * REF_Y_d / lit 903.3
               else pow_d ((L + lit 16) / lit 116) (lit 3) * REF_Y_d);
          Uref = lit 4.0 * REF_X_d / (REF_X_d + lit 15.0 * REF_Y_d + lit 3.0 * REF_Z_d);
          Vref = lit 9.0 * REF_Y_d / (REF_X_d + lit 15.0 * REF_Y_d + lit 3.0 * REF_Z_d);
          U = (if L < EPS_d then Uref else u / (lit 13.0 * L) + Uref);
          V = (if L < EPS_d then Vref else v / (lit 13.0 * L) + Vref);
          denom = lit 4.0 * V;
          denom = (if \<bar>denom\<bar> < EPS_d then EPS_d else denom);
          X = Y * lit 9.0 * U / denom;
          Z = Y * (lit 12.0 - lit 3.0 * U - lit 20.0 * V) / denom
      in (X, Y, Z))"

fun xyzToRgb_d :: "triple_d \<Rightarrow> triple_d" where
  "xyzToRgb_d (X, Y, Z) =
     (let x = sanitize_d X; y = sanitize_d Y; z = sanitize_d Z;
          r_lin = x * M00_d + y * M01_d + z * M02_d;
          g_lin = x * M10_d + y * M11_d + z * M12_d;
          b_lin = x * M20_d + y * M21_d + z * M22_d;
          r = srgbCompanding_d r_lin;
          g = srgbCompanding_d g_lin;
          b = srgbCompanding_d b_lin
      in (clamp01_d (sanitize_d r), clamp01_d (sanitize_d g), clamp01_d (sanitize_d b)))"

fun rgbToXyz_d :: "triple_d \<Rightarrow> triple_d" where
  "rgbToXyz_d (R, G, B) =
     (let r = sanitize_d R; g = sanitize_d G; b = sanitize_d B;
          R_lin = srgbInverseCompanding_d r;
          G_lin = srgbInverseCompanding_d g;
          B_lin = srgbInverseCompanding_d b;
          x = R_lin * lit 0.4124564 + G_lin * lit 0.3575761 + B_lin * lit 0.1804375;
          y_out = R_lin * lit 0.2126729 + G_lin * lit 0.7151522 + B_lin * lit 0.0721750;
          z = R_lin * lit 0.0193339 + G_lin * lit 0.1191920 + B_lin * lit 0.9503041
      in (sanitize_d x, sanitize_d y_out, sanitize_d z))"

fun xyzToLuv_d :: "triple_d \<Rightarrow> triple_d" where
  "xyzToLuv_d (X, Y, Z) =
     (let x = sanitize_d X; y = sanitize_d Y; z = sanitize_d Z;
          denom = x + lit 15.0 * y + lit 3.0 * z
      in if \<bar>denom\<bar> < EPS_d then (lit 0.0, lit 0.0, lit 0.0)
      else
        let Yr = y / REF_Y_d;
            L = (if Yr > E_d then lit 116.0 * pow_d Yr (lit 1.0 / lit 3.0) - lit 16.0
                 else K_d * Yr);
            U' = lit 4.0 * x / denom;
            V' = lit 9.0 * y / denom;
            Uref = lit 4.0 * REF_X_d / (REF_X_d + lit 15.0 * REF_Y_d + lit 3.0 * REF_Z_d);
            Vref = lit 9.0 * REF_Y_d / (REF_X_d + lit 15.0 * REF_Y_d + lit 3.0 * REF_Z_d);
            u = lit 13.0 * L * (U' - Uref);
            v = lit 13.0 * L * (V' - Vref)
        in (sanitize_d L, sanitize_d u, sanitize_d v))"

fun luvToLch_d :: "triple_d \<Rightarrow> triple_d" where
  "luvToLch_d (L0, u0, v0) =
     (let L = sanitize_d L0; u = sanitize_d u0; v = sanitize_d v0;
          C = sqrt_d (u * u + v * v);
          Hrad = myAtan2_d v u;
          Hdeg = toDegrees_d Hrad;
          Hdeg = (if Hdeg < lit 0.0 then Hdeg + lit 360.0 else Hdeg)
      in (L, sanitize_d C, sanitize_d Hdeg))"

fun lchToHsluv_d :: "triple_d \<Rightarrow> triple_d" where
  "lchToHsluv_d (L, C, H) =
     (if L < EPS_d \<or> L > lit 99.99999 then (H, lit 0.0, L)
      else
        let maxC = maxChromaForLH_d L H in
        if maxC \<le> EPS_d then (H, lit 0.0, L)
        else
          let S = (C / maxC) * lit 100.0;
              S = range_d (sanitize_d S) (lit 0.0) (lit 100.0)
          in (H, S, L))"

definition hsluvToRgb_d :: "triple_d \<Rightarrow> triple_d" where
  "hsluvToRgb_d HSL = xyzToRgb_d (luvToXyz_d (lchToLuv_d (hsluvToLch_d HSL)))"

definition rgbToHsluv_d :: "triple_d \<Rightarrow> triple_d" where
  "rgbToHsluv_d RGB = lchToHsluv_d (luvToLch_d (xyzToLuv_d (rgbToXyz_d RGB)))"

definition toVec4_d :: "triple_d \<Rightarrow> vec4_d" where
  "toVec4_d HSL = (case hsluvToRgb_d HSL of (r, g, b) \<Rightarrow> (r, g, b, lit 1.0))"

definition limit01_d :: "dbl \<Rightarrow> dbl" where
  "limit01_d v = (if isnan_d v \<or> isinf_d v then lit 0.0 else range_d v (lit 0.0) (lit 1.0))"

definition toColour_d :: "triple_d \<Rightarrow> vec4_d" where
  "toColour_d HSL =
     (case toVec4_d HSL of (r, g, b, a) \<Rightarrow> (limit01_d r, limit01_d g, limit01_d b, limit01_d a))"

definition fromVec4_d :: "vec4_d \<Rightarrow> triple_d" where
  "fromVec4_d v = (case v of (r, g, b, a) \<Rightarrow> rgbToHsluv_d (sanitize_d r, sanitize_d g, sanitize_d b))"

definition zero_nonfinite_d :: "dbl \<Rightarrow> dbl" where
  "zero_nonfinite_d v = (if isnan_d v \<or> isinf_d v then lit 0.0 else v)"

definition fromColour_d :: "vec4_d \<Rightarrow> triple_d" where
  "fromColour_d v =
     (case fromVec4_d v of (h, s, l) \<Rightarrow>
        (range_d (zero_nonfinite_d h) (lit 0.0) (lit 360.0),
         range_d (zero_nonfinite_d s) (lit 0.0) (lit 100.0),
         range_d (zero_nonfinite_d l) (lit 0.0) (lit 100.0)))"


definition third_d :: "triple_d \<Rightarrow> dbl" where
  "third_d t = snd (snd t)"

definition finite3_d :: "triple_d \<Rightarrow> bool" where
  "finite3_d t = (case t of (a, b, c) \<Rightarrow>
     \<not> isnan_d a \<and> \<not> isinf_d a \<and> \<not> isnan_d b \<and> \<not> isinf_d b \<and> \<not> isnan_d c \<and> \<not> isinf_d c)"

subsection \<open>A dark red\<close>

text \<open>
  The colour with the channels \<open>r = 0.03125\<close>, \<open>g = 0\<close> and \<open>b = 0.004886052262065796\<close>,
  and the doubles that \<open>rgbToXyz\<close> and \<open>xyzToLuv\<close> compute for it.
\<close>

definition red_r :: real where "red_r = 1 / 32"
definition red_b :: real where "red_b = 2816617362784293 / 2 ^ 59"
definition red_x :: real where "red_x = 1228850983403049 / 2 ^ 60"
definition red_y :: real where "red_y = 2498119957229825 / 2 ^ 62"
definition red_z :: real where "red_z = 7492090668303591 / 2 ^ 64"
definition red_L :: real where "red_L = 8814619159488295 / 2 ^ 54"
definition red_u :: real where "red_u = 6065356129616795 / 2 ^ 52"
definition red_v :: real where "red_v = - (447617379192765 / 2 ^ 100)"

section \<open>Basic facts\<close>

lemma sanitize_Fin [simp]: "sanitize (Fin x) = Fin x"
  by (simp add: sanitize_def)

lemma sanitize_special [simp]:
  "sanitize NaN = Fin 0" "sanitize PInf = Fin 0" "sanitize NInf = Fin 0"
  by (simp_all add: sanitize_def)

lemma sanitize_finite: "\<exists>r. sanitize v = Fin r"
  by (cases v) simp_all

lemma zero_nonfinite_finite: "\<exists>r. zero_nonfinite v = Fin r"
  by (cases v) (simp_all add: zero_nonfinite_def)

lemma range_num_Fin [simp]:
  "range_num (Fin x) (Fin lo) (Fin hi) = Fin (if x < lo then lo else if hi < x then hi else x)"
  by (simp add: range_num_def)

text \<open>
  Whatever the chain computes, the last two loops of \<open>fromColour\<close> leave three finite
  numbers inside the closed ranges.
\<close>

lemma fromColour_range:
  "\<exists>h s l. fromColour v = (Fin h, Fin s, Fin l)
     \<and> 0 \<le> h \<and> h \<le> 360 \<and> 0 \<le> s \<and> s \<le> 100 \<and> 0 \<le> l \<and> l \<le> 100"
proof -
  obtain h0 s0 l0 where v: "fromVec4 v = (h0, s0, l0)"
    by (cases "fromVec4 v") auto
  obtain h1 s1 l1 where z: "zero_nonfinite h0 = Fin h1" "zero_nonfinite s0 = Fin s1"
      "zero_nonfinite l0 = Fin l1"
    using zero_nonfinite_finite by metis
  show ?thesis
    by (simp add: fromColour_def v z)
qed

section \<open>The lightness extremes\<close>

lemma hsluvToLch_extreme:
  assumes "L < EPS \<or> L > Fin 99.99999"
  shows "hsluvToLch (H, S, L) = (sanitize L, Fin 0, sanitize H)"
proof -
  have "sanitize L < EPS \<or> sanitize L > Fin 99.99999"
    using assms by (cases L) (simp_all add: EPS_def)
  then show ?thesis
    by (simp add: Let_def)
qed

lemma lchToHsluv_extreme:
  assumes "L < EPS \<or> L > Fin 99.99999"
  shows "lchToHsluv (L, C, H) = (H, Fin 0, L)"
  using assms by simp

text \<open>
  C2, as stated, fails: \<open>hsluvToLch\<close> sanitizes the hue before the test of the lightness, so
  a hue that is not finite comes back as 0, not as it was given.
\<close>

theorem hsluvToLch_hue_counterexample:
  "Fin 0 < EPS \<and> third (hsluvToLch (PInf, Fin 50, Fin 0)) = Fin 0 \<and> Fin 0 \<noteq> PInf"
  by (simp add: hsluvToLch_extreme EPS_def third_def del: hsluvToLch.simps)

text \<open>
  C2, amended. When the lightness is below \<open>EPS\<close> (so also when it is within \<open>EPS\<close> of 0) or
  above 99.99999, both directions return without the chroma solver, for every hue,
  saturation and chroma: \<open>hsluvToLch\<close> returns chroma 0 with the sanitized lightness and the
  sanitized hue, which is the hue as given whenever that is finite; \<open>lchToHsluv\<close> returns
  saturation 0 with the hue and the lightness exactly as given.
\<close>

theorem extremes_short_circuit:
  assumes "L < EPS \<or> L > Fin 99.99999"
  shows "hsluvToLch (H, S, L) = (sanitize L, Fin 0, sanitize H)
       \<and> (\<not> isnan H \<and> \<not> isinf H \<longrightarrow> sanitize H = H)
       \<and> lchToHsluv (L, C, H) = (H, Fin 0, L)"
  using assms hsluvToLch_extreme [of L H S] lchToHsluv_extreme [of L C H]
  by (cases H) simp_all

theorem extremes_short_circuit_witness:
  "hsluvToLch (Fin 120, Fin 50, Fin 0) = (Fin 0, Fin 0, Fin 120)
   \<and> lchToHsluv (Fin 100, Fin 30, Fin 120) = (Fin 120, Fin 0, Fin 100)"
  using extremes_short_circuit [of "Fin 0" "Fin 120" "Fin 50" "Fin 30"]
    extremes_short_circuit [of "Fin 100" "Fin 120" "Fin 50" "Fin 30"]
  by (simp add: EPS_def del: hsluvToLch.simps lchToHsluv.simps)

section \<open>The maximum chroma\<close>

lemma finite_nonneg_lengths: "finite (nonneg_lengths ls)"
proof -
  have "nonneg_lengths ls \<subseteq> Fin -` set ls"
    by (auto simp add: nonneg_lengths_def)
  moreover have "finite (Fin -` set ls)"
    by (rule finite_vimageI) (simp_all add: inj_on_def)
  ultimately show ?thesis
    by (rule finite_subset)
qed

lemma nonneg_lengths_Cons:
  "nonneg_lengths (l # ls) =
     (case l of Fin x \<Rightarrow> if 0 \<le> x then insert x (nonneg_lengths ls) else nonneg_lengths ls
              | _ \<Rightarrow> nonneg_lengths ls)"
  by (cases l) (auto simp add: nonneg_lengths_def)

lemma Min_insert_sentinel:
  fixes a x :: real
  assumes "finite S"
  shows "Min (insert a (insert x S)) = (if x < a then Min (insert x S) else Min (insert a S))"
proof (cases "S = {}")
  case True
  then show ?thesis by (simp add: min_def)
next
  case False
  have 1: "Min (insert a (insert x S)) = min a (Min (insert x S))"
    using assms by (intro Min_insert) simp_all
  have 2: "Min (insert x S) = min x (Min S)"
    using assms False by (intro Min_insert)
  have 3: "Min (insert a S) = min a (Min S)"
    using assms False by (intro Min_insert)
  show ?thesis
    unfolding 1 2 3 by (simp add: min_def)
qed

text \<open>
  The loop keeps in \<open>minLength\<close> the least of its start value and the finite, non-negative
  lengths met so far: a length that is negative, infinite or not a number fails one of the
  two comparisons.
\<close>

lemma maxChroma_loop_Min:
  "maxChroma_loop hRad bounds (Fin a) =
     Fin (Min (insert a (nonneg_lengths (map (rayLength hRad) bounds))))"
proof (induction bounds arbitrary: a)
  case Nil
  then show ?case by (simp add: nonneg_lengths_def)
next
  case (Cons line bounds)
  obtain slope intercept where line: "line = (slope, intercept)"
    by (cases line)
  let ?len = "rayLength hRad line"
  let ?S = "nonneg_lengths (map (rayLength hRad) bounds)"
  have fin: "finite ?S" by (rule finite_nonneg_lengths)
  have step: "maxChroma_loop hRad (line # bounds) (Fin a) =
      maxChroma_loop hRad bounds (if ?len \<ge> Fin 0 \<and> ?len < Fin a then ?len else Fin a)"
    by (simp add: line rayLength_def Let_def)
  show ?case
  proof (cases ?len)
    case (Fin x)
    show ?thesis
    proof (cases "0 \<le> x")
      case True
      then have S: "nonneg_lengths (Fin x # map (rayLength hRad) bounds) = insert x ?S"
        by (simp add: nonneg_lengths_Cons)
      have M: "Min (insert a (insert x ?S)) =
          (if x < a then Min (insert x ?S) else Min (insert a ?S))"
        using fin by (rule Min_insert_sentinel)
      have "maxChroma_loop hRad (line # bounds) (Fin a) =
          Fin (if x < a then Min (insert x ?S) else Min (insert a ?S))"
        using \<open>0 \<le> x\<close> Fin step Cons.IH [of x] Cons.IH [of a] by simp
      then show ?thesis
        unfolding list.map Fin S M .
    next
      case False
      then show ?thesis
        using Fin step Cons.IH [of a] by (simp add: nonneg_lengths_Cons)
    qed
  next
    case PInf
    then show ?thesis using step Cons.IH [of a] by (simp add: nonneg_lengths_Cons)
  next
    case NInf
    then show ?thesis using step Cons.IH [of a] by (simp add: nonneg_lengths_Cons)
  next
    case NaN
    then show ?thesis using step Cons.IH [of a] by (simp add: nonneg_lengths_Cons)
  qed
qed

lemma maxChromaForLH_Min:
  "maxChromaForLH L H = Fin (Min (insert (10 ^ 10) (nonneg_lengths (rayLengths L H))))"
  by (simp add: maxChromaForLH_def Let_def maxChroma_loop_Min rayLengths_def)

lemma maxChromaForLH_bounds: "\<exists>r. maxChromaForLH L H = Fin r \<and> 0 \<le> r \<and> r \<le> 10 ^ 10"
proof -
  let ?S = "insert (10 ^ 10) (nonneg_lengths (rayLengths L H))"
  have fin: "finite ?S" by (simp add: finite_nonneg_lengths)
  moreover have "\<forall>x\<in>?S. 0 \<le> x" by (auto simp add: nonneg_lengths_def)
  ultimately have "0 \<le> Min ?S" by simp
  moreover have "Min ?S \<le> 10 ^ 10" using fin by (intro Min_le) simp_all
  ultimately show ?thesis by (simp add: maxChromaForLH_Min)
qed

lemma pow_cube: "pow (Fin x) (Fin 3) = Fin (x ^ 3)"
  by simp

lemma sub2_zero:
  "sanitize (if pow ((Fin 0 + Fin 16.0) / Fin 116.0) (Fin 3.0) > E
             then pow ((Fin 0 + Fin 16.0) / Fin 116.0) (Fin 3.0) else Fin 0 / K) = Fin 0"
  by (simp add: E_def K_def power_divide pow_cube del: pow.simps)

lemma pushLine_zero: "pushLine_safe mc0 mc1 mc2 (Fin 0) t = None"
  unfolding pushLine_safe_def Let_def sanitize_Fin sub2_zero
  by (simp add: EPS_def)

lemma getBounds_zero: "getBounds (Fin 0) = []"
  by (simp add: getBounds_def bounds_m_def pushLine_zero)

text \<open>
  C3. For every lightness and hue, \<open>maxChromaForLH\<close> returns a non-negative number: the
  minimum of the sentinel \<open>1e10\<close> and the non-negative intersection lengths
  \<open>intercept / (sin(H) - slope * cos(H))\<close> of the valid boundary lines, hence the sentinel
  when there is no such length. At lightness 0 and at lightness 100, \<open>hsluvToLch\<close> returns
  chroma 0 for every saturation (and hue).
\<close>

theorem maxChromaForLH_nonnegative:
  "(\<exists>r. maxChromaForLH L H = Fin r \<and> 0 \<le> r
        \<and> r = Min (insert (10 ^ 10) (nonneg_lengths (rayLengths L H))))
   \<and> (nonneg_lengths (rayLengths L H) = {} \<longrightarrow> maxChromaForLH L H = Fin (10 ^ 10))
   \<and> fst (snd (hsluvToLch (H', S, Fin 0))) = Fin 0
   \<and> fst (snd (hsluvToLch (H', S, Fin 100))) = Fin 0"
proof -
  obtain r where "maxChromaForLH L H = Fin r" "0 \<le> r"
    using maxChromaForLH_bounds by blast
  moreover have "hsluvToLch (H', S, Fin 0) = (Fin 0, Fin 0, sanitize H')"
    using hsluvToLch_extreme [of "Fin 0" H' S] by (simp add: EPS_def)
  moreover have "hsluvToLch (H', S, Fin 100) = (Fin 100, Fin 0, sanitize H')"
    using hsluvToLch_extreme [of "Fin 100" H' S] by simp
  ultimately show ?thesis
    by (simp add: maxChromaForLH_Min)
qed

theorem maxChromaForLH_nonnegative_witness:
  "nonneg_lengths (rayLengths (Fin 0) (Fin 0)) = {}
   \<and> maxChromaForLH (Fin 0) (Fin 0) = Fin (10 ^ 10)"
  using maxChromaForLH_nonnegative [of "Fin 0" "Fin 0"]
  by (simp add: rayLengths_def getBounds_zero nonneg_lengths_def)

section \<open>Rounding\<close>

lemma rne_eqI: "\<bar>q - real_of_int n\<bar> < 1 / 2 \<Longrightarrow> rne q = n"
proof -
  assume a: "\<bar>q - real_of_int n\<bar> < 1 / 2"
  show ?thesis
  proof (cases "real_of_int n \<le> q")
    case True
    then have "\<lfloor>q\<rfloor> = n" using a by (intro floor_unique) auto
    then show ?thesis using a True by (simp add: rne_def Let_def)
  next
    case False
    then have "\<lfloor>q\<rfloor> = n - 1" using a by (intro floor_unique) auto
    then show ?thesis using a False by (auto simp add: rne_def Let_def)
  qed
qed

lemma rne_tie: "q = real_of_int m + 1 / 2 \<Longrightarrow> rne q = (if even m then m else m + 1)"
proof -
  assume q: "q = real_of_int m + 1 / 2"
  then have "\<lfloor>q\<rfloor> = m" by (intro floor_unique) auto
  then show ?thesis using q by (simp add: rne_def Let_def)
qed

lemma rne_close: "\<bar>real_of_int (rne q) - q\<bar> \<le> 1 / 2"
proof -
  have "real_of_int \<lfloor>q\<rfloor> \<le> q" "q < real_of_int \<lfloor>q\<rfloor> + 1" by linarith+
  then show ?thesis by (auto simp add: rne_def Let_def)
qed

lemma ulp_exp_eqI:
  assumes "2 ^ 52 \<le> \<bar>x\<bar> * 2 ^ k" and "\<bar>x\<bar> * 2 ^ k < 2 ^ 53" and "k \<le> 1074"
  shows "ulp_exp x = - int k"
proof -
  have x: "0 < \<bar>x\<bar>" using assms(1) by (cases "x = 0") auto
  have p: "(2::real) powr real_of_int (52 - int k) = 2 ^ 52 / 2 ^ k"
    by (simp add: powr_diff powr_realpow flip: powr_realpow [of 2 52])
  have p': "(2::real) powr real_of_int (52 - int k + 1) = 2 ^ 53 / 2 ^ k"
    using powr_diff [of 2 53 "real k"] by (simp add: powr_realpow algebra_simps)
  have c: "2 powr real_of_int (52 - int k) \<le> \<bar>x\<bar>
      \<and> \<bar>x\<bar> < 2 powr real_of_int (52 - int k + 1)"
    unfolding p p' using assms(1,2) by (simp add: field_simps)
  have "\<lfloor>log 2 \<bar>x\<bar>\<rfloor> = 52 - int k"
    by (rule iffD2 [OF floor_log_eq_powr_iff]) (use x c in simp_all)
  then show ?thesis using assms(3) by (simp add: ulp_exp_def)
qed

text \<open>
  A number between \<open>2 ^ 52 / 2 ^ k\<close> and \<open>2 ^ 53 / 2 ^ k\<close> in size is rounded to a multiple of
  \<open>1 / 2 ^ k\<close>: to the one less than half a step away, or to the even one of the two that
  are half a step away.
\<close>

lemma round64_scaled:
  assumes "2 ^ 52 \<le> \<bar>x\<bar> * 2 ^ k" and "\<bar>x\<bar> * 2 ^ k < 2 ^ 53" and "k \<le> 1074"
  shows "round64 x = Dbl (real_of_int (rne (x * 2 ^ k)) / 2 ^ k)"
proof -
  define n where "n = rne (x * 2 ^ k)"
  have x: "x \<noteq> 0" using assms(1) by auto
  have e: "ulp_exp x = - int k" using assms by (rule ulp_exp_eqI)
  have p: "(2::real) powr - real k = 1 / 2 ^ k"
    by (simp add: powr_minus_divide powr_realpow)
  have r: "round_real x = real_of_int n / 2 ^ k"
    using x by (simp add: round_real_def e p n_def)
  have "\<bar>x * 2 ^ k\<bar> < 2 ^ 53"
    using assms(2) by (simp add: abs_mult)
  then have "\<bar>real_of_int n\<bar> < 2 ^ 53 + 1"
    using rne_close [of "x * 2 ^ k"] unfolding n_def by linarith
  then have "\<bar>real_of_int n\<bar> < 2 ^ 1024"
    by (rule less_trans) simp
  moreover have "\<bar>real_of_int n / 2 ^ k\<bar> \<le> \<bar>real_of_int n\<bar>"
    by (simp add: field_simps abs_mult mult_le_cancel_left1)
  ultimately have "\<bar>real_of_int n / 2 ^ k\<bar> < 2 ^ 1024" by linarith
  then show ?thesis
    unfolding n_def [symmetric] by (simp add: round64_def r Let_def)
qed

lemma round64_eqI':
  assumes "2 ^ 52 \<le> \<bar>x\<bar> * 2 ^ k" and "\<bar>x\<bar> * 2 ^ k < 2 ^ 53" and "k \<le> 1074"
    and "\<bar>x * 2 ^ k - real_of_int n\<bar> < 1 / 2" and "c = real_of_int n / 2 ^ k"
  shows "round64 x = Dbl c"
  unfolding assms(5) round64_scaled [OF assms(1-3)] rne_eqI [OF assms(4)] ..

lemma round64_tieI:
  assumes "2 ^ 52 \<le> \<bar>x\<bar> * 2 ^ k" and "\<bar>x\<bar> * 2 ^ k < 2 ^ 53" and "k \<le> 1074"
    and "x * 2 ^ k = real_of_int m + 1 / 2"
    and "c = real_of_int (if even m then m else m + 1) / 2 ^ k"
  shows "round64 x = Dbl c"
  unfolding assms(5) round64_scaled [OF assms(1-3)] rne_tie [OF assms(4)] ..

lemma round64_zero: "round64 0 = Dbl 0"
  by (simp add: round64_def round_real_def)

lemma floor_log2_bounds:
  assumes "x \<noteq> 0"
  shows "2 powr real_of_int \<lfloor>log 2 \<bar>x\<bar>\<rfloor> \<le> \<bar>x\<bar>"
    and "\<bar>x\<bar> < 2 powr real_of_int (\<lfloor>log 2 \<bar>x\<bar>\<rfloor> + 1)"
  using iffD1 [OF floor_log_eq_powr_iff [of "\<bar>x\<bar>" 2 "\<lfloor>log 2 \<bar>x\<bar>\<rfloor>"] refl] assms
  by simp_all

text \<open>
  A number in the range of the normal doubles is rounded with a relative error of at most
  \<open>1 / 2 ^ 53\<close>.
\<close>

lemma round64_rel:
  assumes lo: "1 / 2 ^ 1022 \<le> \<bar>x\<bar>" and hi: "\<bar>x\<bar> < 2 ^ 1023"
  shows "\<exists>r. round64 x = Dbl r \<and> \<bar>r - x\<bar> \<le> \<bar>x\<bar> / 2 ^ 53"
proof -
  define e where "e = \<lfloor>log 2 \<bar>x\<bar>\<rfloor>"
  define s :: real where "s = 2 powr real_of_int (e - 52)"
  have x: "x \<noteq> 0" using lo by auto
  have b: "2 powr real_of_int e \<le> \<bar>x\<bar>" "\<bar>x\<bar> < 2 powr real_of_int (e + 1)"
    unfolding e_def using floor_log2_bounds [OF x] by simp_all
  have "(2::real) powr real_of_int (- 1022) = 1 / 2 ^ 1022"
    by (simp add: powr_minus_divide)
  then have "(2::real) powr real_of_int (- 1022) < 2 powr real_of_int (e + 1)"
    using lo b(2) by linarith
  then have e: "- 1022 \<le> e" by simp
  then have "max (- 1074) (e - 52) = e - 52" by simp
  then have u: "ulp_exp x = e - 52" unfolding ulp_exp_def e_def .
  have s: "0 < s" by (simp add: s_def)
  have se: "s * 2 ^ 53 = 2 * 2 powr real_of_int e"
  proof -
    have e1: "real_of_int (e - 52) + 53 = real_of_int e + 1" by simp
    have "s * 2 ^ 53 = 2 powr real_of_int (e - 52) * 2 powr 53" by (simp add: s_def)
    also have "\<dots> = 2 powr (real_of_int e + 1)"
      unfolding e1 [symmetric] by (simp only: powr_add)
    also have "\<dots> = 2 powr real_of_int e * 2 powr 1" by (simp only: powr_add)
    finally show ?thesis by simp
  qed
  define r where "r = real_of_int (rne (x / s)) * s"
  have rr: "round_real x = r" using x by (simp add: round_real_def u s_def r_def)
  have "\<bar>r - x\<bar> = \<bar>real_of_int (rne (x / s)) - x / s\<bar> * s"
  proof -
    have "r - x = (real_of_int (rne (x / s)) - x / s) * s"
      using s by (simp add: r_def field_simps)
    then show ?thesis using s by (simp add: abs_mult)
  qed
  also have "\<dots> \<le> 1 / 2 * s"
    using rne_close [of "x / s"] s by (intro mult_right_mono) simp_all
  finally have d: "\<bar>r - x\<bar> \<le> s / 2" by simp
  have "s / 2 * 2 ^ 53 \<le> \<bar>x\<bar>" using se b(1) by simp
  then have sx: "s / 2 \<le> \<bar>x\<bar> / 2 ^ 53" by (simp add: field_simps)
  have "\<bar>x\<bar> / 2 ^ 53 \<le> \<bar>x\<bar>" by (simp add: field_simps mult_le_cancel_left1)
  then have "\<bar>r\<bar> \<le> 2 * \<bar>x\<bar>" using d sx by linarith
  then have "\<bar>r\<bar> < 2 ^ 1024" using hi by simp
  then have "round64 x = Dbl r" by (simp add: round64_def rr Let_def)
  then show ?thesis using d sx by auto
qed

lemma round64_neg:
  assumes "lo \<le> x" and "x \<le> hi" and "hi < 0" and "- 1 \<le> lo" and "hi \<le> - (1 / 10 ^ 300)"
  shows "\<exists>r. round64 x = Dbl r \<and> lo * (1001 / 1000) \<le> r \<and> r \<le> hi * (999 / 1000)"
proof -
  have "(1::real) / 2 ^ 1022 \<le> 1 / 10 ^ 300" by simp
  then have "1 / 2 ^ 1022 \<le> \<bar>x\<bar>" using assms by linarith
  moreover have "\<bar>x\<bar> < 2 ^ 1023"
  proof -
    have "\<bar>x\<bar> \<le> 1" using assms by linarith
    also have "(1::real) < 2 ^ 1023" by simp
    finally show ?thesis .
  qed
  ultimately obtain r where r: "round64 x = Dbl r" "\<bar>r - x\<bar> \<le> \<bar>x\<bar> / 2 ^ 53"
    using round64_rel by blast
  have "\<bar>x\<bar> / 2 ^ 53 \<le> \<bar>x\<bar> / 1000"
    by (intro divide_left_mono) simp_all
  then have "\<bar>r - x\<bar> \<le> - x / 1000" using r(2) assms by linarith
  then have "x * (1001 / 1000) \<le> r" "r \<le> x * (999 / 1000)" by linarith+
  moreover have "lo * (1001 / 1000) \<le> x * (1001 / 1000)" "x * (999 / 1000) \<le> hi * (999 / 1000)"
    using assms(1,2) by simp_all
  ultimately have "lo * (1001 / 1000) \<le> r \<and> r \<le> hi * (999 / 1000)" by linarith
  then show ?thesis using r(1) by blast
qed

lemma round64_pos:
  assumes "lo \<le> x" and "x \<le> hi" and "1 \<le> lo" and "hi \<le> 1000"
  shows "\<exists>r. round64 x = Dbl r \<and> lo * (999 / 1000) \<le> r \<and> r \<le> hi * (1001 / 1000)"
proof -
  have "(1::real) / 2 ^ 1022 \<le> 1" by simp
  then have "1 / 2 ^ 1022 \<le> \<bar>x\<bar>" using assms by linarith
  moreover have "\<bar>x\<bar> < 2 ^ 1023"
  proof -
    have "\<bar>x\<bar> \<le> 1000" using assms by linarith
    also have "(1000::real) < 2 ^ 1023" by simp
    finally show ?thesis .
  qed
  ultimately obtain r where r: "round64 x = Dbl r" "\<bar>r - x\<bar> \<le> \<bar>x\<bar> / 2 ^ 53"
    using round64_rel by blast
  have "\<bar>x\<bar> / 2 ^ 53 \<le> \<bar>x\<bar> / 1000"
    by (intro divide_left_mono) simp_all
  then have "\<bar>r - x\<bar> \<le> x / 1000" using r(2) assms by linarith
  then have "x * (999 / 1000) \<le> r" "r \<le> x * (1001 / 1000)" by linarith+
  moreover have "lo * (999 / 1000) \<le> x * (999 / 1000)" "x * (1001 / 1000) \<le> hi * (1001 / 1000)"
    using assms(1,2) by simp_all
  ultimately have "lo * (999 / 1000) \<le> r \<and> r \<le> hi * (1001 / 1000)" by linarith
  then show ?thesis using r(1) by blast
qed

lemma arctan_le_self: "0 \<le> x \<Longrightarrow> arctan x \<le> x"
proof -
  assume x: "0 \<le> x"
  have "arctan x - x \<le> arctan 0 - 0"
  proof (rule DERIV_nonpos_imp_nonincreasing [OF x])
    fix z :: real
    have "((\<lambda>z. arctan z - z) has_real_derivative (inverse (1 + z\<^sup>2) - 1)) (at z)"
      by (auto intro!: derivative_eq_intros)
    moreover have "inverse (1 + z\<^sup>2) - 1 \<le> 0"
      using le_imp_inverse_le [of 1 "1 + z\<^sup>2"] by simp
    ultimately show "\<exists>y. ((\<lambda>z. arctan z - z) has_real_derivative y) (at z) \<and> y \<le> 0"
      by blast
  qed
  then show ?thesis by simp
qed

lemma arctan_ge_half: "0 \<le> x \<Longrightarrow> x \<le> 1 \<Longrightarrow> x / 2 \<le> arctan x"
proof -
  assume x: "0 \<le> x" "x \<le> 1"
  have "arctan 0 - 0 / 2 \<le> arctan x - x / 2"
  proof (rule DERIV_nonneg_imp_nondecreasing [OF x(1)])
    fix z :: real
    assume z: "0 \<le> z" "z \<le> x"
    have "((\<lambda>z. arctan z - z / 2) has_real_derivative (inverse (1 + z\<^sup>2) - 1 / 2)) (at z)"
      by (auto intro!: derivative_eq_intros)
    moreover have "z\<^sup>2 \<le> 1" using z x by (simp add: power_le_one)
    then have "0 \<le> inverse (1 + z\<^sup>2) - 1 / 2"
      using le_imp_inverse_le [of "1 + z\<^sup>2" 2] by (simp add: add_pos_nonneg)
    ultimately show "\<exists>y. ((\<lambda>z. arctan z - z / 2) has_real_derivative y) (at z) \<and> 0 \<le> y"
      by blast
  qed
  then show ?thesis by simp
qed

lemma arctan_small_neg: "- 1 \<le> t \<Longrightarrow> t \<le> 0 \<Longrightarrow> t \<le> arctan t \<and> arctan t \<le> t / 2"
  using arctan_le_self [of "- t"] arctan_ge_half [of "- t"] by (simp add: arctan_minus)

section \<open>The ranges of the results\<close>

text \<open>Two facts of the exact chain, for the neutral colours below.\<close>

lemma lchToHsluv_hue: "fst (lchToHsluv (L, C, H)) = H"
  by (simp add: Let_def)

lemma xyzToLuv_finite: "\<exists>l u v. xyzToLuv t = (Fin l, Fin u, Fin v)"
proof -
  obtain X Y Z where t: "t = (X, Y, Z)" by (cases t)
  show ?thesis
    unfolding t xyzToLuv.simps Let_def
    using sanitize_finite by (metis (no_types))
qed

subsection \<open>A hue of 360\<close>

lemma rgbToXyz_d_red:
  "rgbToXyz_d (Dbl red_r, Dbl 0, Dbl red_b) = (Dbl red_x, Dbl red_y, Dbl red_z)"
proof -
  have f1: "lit 0.0 = Dbl 0"
    by (simp add: lit_def round64_zero)
  have f2: "lit 1.0 = Dbl 1"
    unfolding lit_def by (rule round64_eqI' [where k = 52 and n = "4503599627370496"]) simp_all
  define c1 :: real where "c1 = 2914729678834185 / 2 ^ 56"
  have f3: "lit 0.04045 = Dbl c1"
    unfolding lit_def c1_def by (rule round64_eqI' [where k = 57 and n = "5829459357668370"]) simp_all
  define c2 :: real where "c2 = 7273313398203351 / 2 ^ 49"
  have f4: "lit 12.92 = Dbl c2"
    unfolding lit_def c2_def by (rule round64_eqI' [where k = 49 and n = "7273313398203351"]) simp_all
  have f5: "\<not> red_r < 0"
    unfolding red_r_def by simp
  have f6: "\<not> (1::real) < red_r"
    unfolding red_r_def by simp
  have f7: "red_r \<le> c1"
    unfolding red_r_def c1_def by simp
  have f8: "\<not> (0::real) < 0"
    by simp
  have f9: "\<not> (1::real) < 0"
    by simp
  have f10: "(0::real) \<le> c1"
    unfolding c1_def by simp
  have f11: "\<not> red_b < 0"
    unfolding red_b_def by simp
  have f12: "\<not> (1::real) < red_b"
    unfolding red_b_def by simp
  have f13: "red_b \<le> c1"
    unfolding red_b_def c1_def by simp
  have f14: "\<not> c2 = 0"
    unfolding c2_def by simp
  define R :: real where "R = 43571977818987 / 2 ^ 54"
  have f15: "round64 (red_r / c2) = Dbl R"
    unfolding red_r_def c2_def R_def by (rule round64_eqI' [where k = 61 and n = "5577213160830336"]) simp_all
  have f16: "round64 (0 / c2) = Dbl 0"
    unfolding c2_def by (simp add: round64_zero)
  define B :: real where "B = 6976142075007537 / 2 ^ 64"
  have f17: "round64 (red_b / c2) = Dbl B"
    unfolding red_b_def c2_def B_def by (rule round64_eqI' [where k = 64 and n = "6976142075007537"]) simp_all
  define m00 :: real where "m00 = 7430153957386305 / 2 ^ 54"
  have f18: "lit 0.4124564 = Dbl m00"
    unfolding lit_def m00_def by (rule round64_eqI' [where k = 54 and n = "7430153957386305"]) simp_all
  define m01 :: real where "m01 = 6441518362866381 / 2 ^ 54"
  have f19: "lit 0.3575761 = Dbl m01"
    unfolding lit_def m01_def by (rule round64_eqI' [where k = 54 and n = "6441518362866381"]) simp_all
  define m02 :: real where "m02 = 6500946062109311 / 2 ^ 55"
  have f20: "lit 0.1804375 = Dbl m02"
    unfolding lit_def m02_def by (rule round64_eqI' [where k = 55 and n = "6500946062109311"]) simp_all
  define p0 :: real where "p0 = 4600714524697403 / 2 ^ 62"
  have f21: "round64 (R * m00) = Dbl p0"
    unfolding R_def m00_def p0_def by (rule round64_eqI' [where k = 62 and n = "4600714524697403"]) simp_all
  have f22: "round64 (0 * m01) = Dbl 0"
    unfolding m01_def by (simp add: round64_zero)
  have f23: "round64 (p0 + 0) = Dbl p0"
    unfolding p0_def p0_def by (rule round64_eqI' [where k = 62 and n = "4600714524697403"]) simp_all
  define q0 :: real where "q0 = 2517515271318345 / 2 ^ 65"
  have f24: "round64 (B * m02) = Dbl q0"
    unfolding B_def m02_def q0_def by (rule round64_eqI' [where k = 66 and n = "5035030542636690"]) simp_all
  have f25: "round64 (p0 + q0) = Dbl red_x"
    unfolding p0_def q0_def red_x_def by (rule round64_eqI' [where k = 62 and n = "4915403933612196"]) simp_all
  define m10 :: real where "m10 = 3831174372767211 / 2 ^ 54"
  have f26: "lit 0.2126729 = Dbl m10"
    unfolding lit_def m10_def by (rule round64_eqI' [where k = 55 and n = "7662348745534422"]) simp_all
  define m11 :: real where "m11 = 6441518362866381 / 2 ^ 53"
  have f27: "lit 0.7151522 = Dbl m11"
    unfolding lit_def m11_def by (rule round64_eqI' [where k = 53 and n = "6441518362866381"]) simp_all
  define m12 :: real where "m12 = 5200756849687449 / 2 ^ 56"
  have f28: "lit 0.0721750 = Dbl m12"
    unfolding lit_def m12_def by (rule round64_eqI' [where k = 56 and n = "5200756849687449"]) simp_all
  define p1 :: real where "p1 = 593061048415977 / 2 ^ 60"
  have f29: "round64 (R * m10) = Dbl p1"
    unfolding R_def m10_def p1_def by (rule round64_eqI' [where k = 63 and n = "4744488387327816"]) simp_all
  have f30: "round64 (0 * m11) = Dbl 0"
    unfolding m11_def by (simp add: round64_zero)
  have f31: "round64 (p1 + 0) = Dbl p1"
    unfolding p1_def p1_def by (rule round64_eqI' [where k = 63 and n = "4744488387327816"]) simp_all
  define q1 :: real where "q1 = 503503054263669 / 2 ^ 64"
  have f32: "round64 (B * m12) = Dbl q1"
    unfolding B_def m12_def q1_def by (rule round64_eqI' [where k = 68 and n = "8056048868218704"]) simp_all
  have f33: "round64 (p1 + q1) = Dbl red_y"
    unfolding p1_def q1_def red_y_def by (rule round64_tieI [where k = 63 and m = "4996239914459650"]) simp_all
  define m20 :: real where "m20 = 1393154317369895 / 2 ^ 56"
  have f34: "lit 0.0193339 = Dbl m20"
    unfolding lit_def m20_def by (rule round64_eqI' [where k = 58 and n = "5572617269479580"]) simp_all
  define m21 :: real where "m21 = 8588688748568707 / 2 ^ 56"
  have f35: "lit 0.1191920 = Dbl m21"
    unfolding lit_def m21_def by (rule round64_eqI' [where k = 56 and n = "8588688748568707"]) simp_all
  define m22 :: real where "m22 = 8559578381297309 / 2 ^ 53"
  have f36: "lit 0.9503041 = Dbl m22"
    unfolding lit_def m22_def by (rule round64_eqI' [where k = 53 and n = "8559578381297309"]) simp_all
  define p2 :: real where "p2 = 6901074017931369 / 2 ^ 67"
  have f37: "round64 (R * m20) = Dbl p2"
    unfolding R_def m20_def p2_def by (rule round64_eqI' [where k = 67 and n = "6901074017931369"]) simp_all
  have f38: "round64 (0 * m21) = Dbl 0"
    unfolding m21_def by (simp add: round64_zero)
  have f39: "round64 (p2 + 0) = Dbl p2"
    unfolding p2_def p2_def by (rule round64_eqI' [where k = 67 and n = "6901074017931369"]) simp_all
  define q2 :: real where "q2 = 3314728208031085 / 2 ^ 63"
  have f40: "round64 (B * m22) = Dbl q2"
    unfolding B_def m22_def q2_def by (rule round64_eqI' [where k = 64 and n = "6629456416062170"]) simp_all
  have f41: "round64 (p2 + q2) = Dbl red_z"
    unfolding p2_def q2_def red_z_def by (rule round64_eqI' [where k = 64 and n = "7492090668303591"]) simp_all
  show ?thesis
    by (simp only: rgbToXyz_d.simps srgbInverseCompanding_d_def Let_def if_True if_False
      simp_thms prod.case fst_conv snd_conv isnan_d.simps isinf_d.simps plus_dbl.simps
      times_dbl.simps divide_dbl.simps uminus_dbl.simps minus_dbl_def abs_dbl.simps
      less_dbl.simps less_eq_dbl.simps sanitize_d_def range_d_def REF_X_d_def REF_Y_d_def
      REF_Z_d_def EPS_d_def K_d_def E_d_def f1 f2 f3 f4 f5 f6 f7 f8 f9 f10 f11 f12 f13 f14
      f15 f16 f17 f18 f19 f20 f21 f22 f23 f24 f25 f26 f27 f28 f29 f30 f31 f32 f33 f34 f35
      f36 f37 f38 f39 f40 f41)
qed

lemma xyzToLuv_d_red:
  "xyzToLuv_d (Dbl red_x, Dbl red_y, Dbl red_z) = (Dbl red_L, Dbl red_u, Dbl red_v)"
proof -
  have f1: "lit 0.0 = Dbl 0"
    by (simp add: lit_def round64_zero)
  have f2: "lit 1.0 = Dbl 1"
    unfolding lit_def by (rule round64_eqI' [where k = 52 and n = "4503599627370496"]) simp_all
  have f3: "lit 15.0 = Dbl 15"
    unfolding lit_def by (rule round64_eqI' [where k = 49 and n = "8444249301319680"]) simp_all
  have f4: "lit 3.0 = Dbl 3"
    unfolding lit_def by (rule round64_eqI' [where k = 51 and n = "6755399441055744"]) simp_all
  have f5: "lit 4.0 = Dbl 4"
    unfolding lit_def by (rule round64_eqI' [where k = 50 and n = "4503599627370496"]) simp_all
  have f6: "lit 9.0 = Dbl 9"
    unfolding lit_def by (rule round64_eqI' [where k = 49 and n = "5066549580791808"]) simp_all
  have f7: "lit 13.0 = Dbl 13"
    unfolding lit_def by (rule round64_eqI' [where k = 49 and n = "7318349394477056"]) simp_all
  define refx :: real where "refx = 8561072675653671 / 2 ^ 53"
  have f8: "lit 0.95047 = Dbl refx"
    unfolding lit_def refx_def by (rule round64_eqI' [where k = 53 and n = "8561072675653671"]) simp_all
  define refz :: real where "refz = 4903654382269817 / 2 ^ 52"
  have f9: "lit 1.08883 = Dbl refz"
    unfolding lit_def refz_def by (rule round64_eqI' [where k = 52 and n = "4903654382269817"]) simp_all
  define eps :: real where "eps = 7737125245533627 / 2 ^ 86"
  have f10: "lit (1 / 10 ^ 10) = Dbl eps"
    unfolding lit_def eps_def by (rule round64_eqI' [where k = 86 and n = "7737125245533627"]) simp_all
  define kk :: real where "kk = 7945478247991151 / 2 ^ 43"
  have f11: "lit 903.2962962 = Dbl kk"
    unfolding lit_def kk_def by (rule round64_eqI' [where k = 43 and n = "7945478247991151"]) simp_all
  define ee :: real where "ee = 5105396752074859 / 2 ^ 59"
  have f12: "lit 0.0088564516 = Dbl ee"
    unfolding lit_def ee_def by (rule round64_eqI' [where k = 59 and n = "5105396752074859"]) simp_all
  define d1 :: real where "d1 = 2341987459902961 / 2 ^ 58"
  have f13: "round64 (15 * red_y) = Dbl d1"
    unfolding red_y_def d1_def by (rule round64_eqI' [where k = 59 and n = "4683974919805922"]) simp_all
  define d2 :: real where "d2 = 2649200205753723 / 2 ^ 58"
  have f14: "round64 (red_x + d1) = Dbl d2"
    unfolding red_x_def d1_def d2_def by (rule round64_tieI [where k = 59 and m = "5298400411507446"]) simp_all
  define d3 :: real where "d3 = 5619068001227693 / 2 ^ 62"
  have f15: "round64 (3 * red_z) = Dbl d3"
    unfolding red_z_def d3_def by (rule round64_eqI' [where k = 62 and n = "5619068001227693"]) simp_all
  define den :: real where "den = 1500195977915227 / 2 ^ 57"
  have f16: "round64 (d2 + d3) = Dbl den"
    unfolding d2_def d3_def den_def by (rule round64_eqI' [where k = 59 and n = "6000783911660908"]) simp_all
  have f17: "\<not> \<bar>den\<bar> < eps"
    unfolding den_def eps_def by simp
  have f18: "\<not> (1::real) = 0"
    by simp
  have f19: "round64 (red_y / 1) = Dbl red_y"
    unfolding red_y_def red_y_def by (rule round64_eqI' [where k = 63 and n = "4996239914459650"]) simp_all
  have f20: "\<not> ee < red_y"
    unfolding ee_def red_y_def by simp
  have f21: "round64 (kk * red_y) = Dbl red_L"
    unfolding kk_def red_y_def red_L_def by (rule round64_eqI' [where k = 54 and n = "8814619159488295"]) simp_all
  have f22: "\<not> den = 0"
    unfolding den_def by simp
  define u1 :: real where "u1 = 1228850983403049 / 2 ^ 58"
  have f23: "round64 (4 * red_x) = Dbl u1"
    unfolding red_x_def u1_def by (rule round64_eqI' [where k = 60 and n = "4915403933612196"]) simp_all
  define U :: real where "U = 7378039819355613 / 2 ^ 54"
  have f24: "round64 (u1 / den) = Dbl U"
    unfolding u1_def den_def U_def by (rule round64_eqI' [where k = 54 and n = "7378039819355613"]) simp_all
  define v1 :: real where "v1 = 2810384951883553 / 2 ^ 59"
  have f25: "round64 (9 * red_y) = Dbl v1"
    unfolding red_y_def v1_def by (rule round64_eqI' [where k = 60 and n = "5620769903767106"]) simp_all
  define V :: real where "V = 8436796797481903 / 2 ^ 54"
  have f26: "round64 (v1 / den) = Dbl V"
    unfolding v1_def den_def V_def by (rule round64_eqI' [where k = 54 and n = "8436796797481903"]) simp_all
  define n1 :: real where "n1 = 8561072675653671 / 2 ^ 51"
  have f27: "round64 (4 * refx) = Dbl n1"
    unfolding refx_def n1_def by (rule round64_eqI' [where k = 51 and n = "8561072675653671"]) simp_all
  have f28: "round64 (15 * 1) = Dbl 15"
    by (rule round64_eqI' [where k = 49 and n = "8444249301319680"]) simp_all
  define s1 :: real where "s1 = 4489658171774017 / 2 ^ 48"
  have f29: "round64 (refx + 15) = Dbl s1"
    unfolding refx_def s1_def by (rule round64_eqI' [where k = 49 and n = "8979316343548034"]) simp_all
  define s2 :: real where "s2 = 3677740786702363 / 2 ^ 50"
  have f30: "round64 (3 * refz) = Dbl s2"
    unfolding refz_def s2_def by (rule round64_tieI [where k = 51 and m = "7355481573404725"]) simp_all
  define rd :: real where "rd = 676136671056201 / 2 ^ 45"
  have f31: "round64 (s1 + s2) = Dbl rd"
    unfolding s1_def s2_def rd_def by (rule round64_eqI' [where k = 48 and n = "5409093368449608"]) simp_all
  have f32: "\<not> rd = 0"
    unfolding rd_def by simp
  define Ur :: real where "Ur = 3563965445378945 / 2 ^ 54"
  have f33: "round64 (n1 / rd) = Dbl Ur"
    unfolding n1_def rd_def Ur_def by (rule round64_eqI' [where k = 55 and n = "7127930890757890"]) simp_all
  have f34: "round64 (9 * 1) = Dbl 9"
    by (rule round64_eqI' [where k = 49 and n = "5066549580791808"]) simp_all
  define Vr :: real where "Vr = 527299799842619 / 2 ^ 50"
  have f35: "round64 (9 / rd) = Dbl Vr"
    unfolding rd_def Vr_def by (rule round64_eqI' [where k = 54 and n = "8436796797481904"]) simp_all
  define l13 :: real where "l13 = 447617379192765 / 2 ^ 46"
  have f36: "round64 (13 * red_L) = Dbl l13"
    unfolding red_L_def l13_def by (rule round64_eqI' [where k = 50 and n = "7161878067084240"]) simp_all
  define du :: real where "du = 953518593494167 / 2 ^ 52"
  have f37: "round64 (U + - Ur) = Dbl du"
    unfolding U_def Ur_def du_def by (rule round64_eqI' [where k = 55 and n = "7628148747953336"]) simp_all
  have f38: "round64 (l13 * du) = Dbl red_u"
    unfolding l13_def du_def red_u_def by (rule round64_eqI' [where k = 52 and n = "6065356129616795"]) simp_all
  define dv :: real where "dv = - (1 / 2 ^ 54)"
  have f39: "round64 (V + - Vr) = Dbl dv"
    unfolding V_def Vr_def dv_def by (rule round64_eqI' [where k = 106 and n = "- 4503599627370496"]) simp_all
  have f40: "round64 (l13 * dv) = Dbl red_v"
    unfolding l13_def dv_def red_v_def by (rule round64_eqI' [where k = 104 and n = "- 7161878067084240"]) simp_all
  show ?thesis
    by (simp only: xyzToLuv_d.simps Let_def if_True if_False simp_thms prod.case fst_conv
      snd_conv isnan_d.simps isinf_d.simps plus_dbl.simps times_dbl.simps divide_dbl.simps
      uminus_dbl.simps minus_dbl_def abs_dbl.simps less_dbl.simps less_eq_dbl.simps
      sanitize_d_def range_d_def REF_X_d_def REF_Y_d_def REF_Z_d_def EPS_d_def K_d_def
      E_d_def f1 f2 f3 f4 f5 f6 f7 f8 f9 f10 f11 f12 f13 f14 f15 f16 f17 f18 f19 f20 f21
      f22 f23 f24 f25 f26 f27 f28 f29 f30 f31 f32 f33 f34 f35 f36 f37 f38 f39 f40)
qed

lemma lchToHsluv_d_hue: "fst (lchToHsluv_d (L, C, H)) = H"
  by (simp add: Let_def)

lemma round64_1: "round64 1 = Dbl 1"
  by (rule round64_eqI' [where k = 52 and n = "4503599627370496"]) simp_all

lemma round64_100: "round64 100 = Dbl 100"
  by (rule round64_eqI' [where k = 46 and n = "7036874417766400"]) simp_all

lemma round64_180: "round64 180 = Dbl 180"
  by (rule round64_eqI' [where k = 45 and n = "6333186975989760"]) simp_all

lemma round64_360: "round64 360 = Dbl 360"
  by (rule round64_eqI' [where k = 44 and n = "6333186975989760"]) simp_all

lemma lit_180: "lit 180 = Dbl 180"
  by (simp add: lit_def round64_180)

lemma lit_360: "lit 360.0 = Dbl 360"
  by (simp add: lit_def round64_360)

text \<open>
  An angle in degrees that is negative and less than \<open>1 / 2 ^ 45\<close> in size: the sum with 360
  is less than half a step below 360, where the doubles are \<open>1 / 2 ^ 44\<close> apart, and is
  rounded to 360.
\<close>

lemma round64_add_360:
  assumes "- (1 / 2 ^ 45) < h" and "h < 0"
  shows "round64 (h + 360) = Dbl 360"
proof (rule round64_eqI' [where k = 44 and n = "6333186975989760"])
  have a: "\<bar>h + 360\<bar> = h + 360" using assms by simp
  show "2 ^ 52 \<le> \<bar>h + 360\<bar> * 2 ^ 44" unfolding a using assms by simp
  show "\<bar>h + 360\<bar> * 2 ^ 44 < 2 ^ 53" unfolding a using assms by simp
  show "44 \<le> (1074::nat)" by simp
  have "(h + 360) * 2 ^ 44 - real_of_int 6333186975989760 = h * 2 ^ 44" by simp
  moreover have "\<bar>h * 2 ^ 44\<bar> < 1 / 2" using assms by (simp add: abs_mult)
  ultimately show "\<bar>(h + 360) * 2 ^ 44 - real_of_int 6333186975989760\<bar> < 1 / 2" by simp
  show "360 = real_of_int 6333186975989760 / 2 ^ 44" by simp
qed

text \<open>
  The quotient \<open>v / u\<close> of the colour is about \<open>-2.6 / 10 ^ 16\<close>. Its arc tangent lies between
  it and its half; \<open>\<pi>\<close> lies between 2 and 4, so the factor \<open>180 / \<pi>\<close> is at most 91 after
  both roundings, and the angle in degrees is above \<open>-2.41 / 10 ^ 14\<close>, which is less than
  \<open>1 / 2 ^ 45\<close> in size.
\<close>

lemma luvToLch_d_red:
  "\<exists>C. luvToLch_d (Dbl red_L, Dbl red_u, Dbl red_v) = (Dbl red_L, C, Dbl 360)"
proof -
  have f1: "lit 0.0 = Dbl 0"
    by (simp add: lit_def round64_zero)
  have f2: "(0::real) < red_u"
    unfolding red_u_def by simp
  have f3: "\<not> red_u = 0"
    unfolding red_u_def by simp
  define t :: real where "t = - (1329445077293067 / 2 ^ 102)"
  have f4: "round64 (red_v / red_u) = Dbl t"
    unfolding red_v_def red_u_def t_def by (rule round64_eqI' [where k = 104 and n = "- 5317780309172268"]) simp_all
  have t: "- (263 / 10 ^ 18) \<le> t" "t \<le> - (262 / 10 ^ 18)"
    unfolding t_def by simp_all
  have "t \<le> arctan t \<and> arctan t \<le> t / 2"
    using t by (intro arctan_small_neg) simp_all
  then have "- (263 / 10 ^ 18) \<le> arctan t" "arctan t \<le> - (131 / 10 ^ 18)"
    using t by linarith+
  then obtain a where a: "round64 (arctan t) = Dbl a"
      "- (263 / 10 ^ 18) * (1001 / 1000) \<le> a" "a \<le> - (131 / 10 ^ 18) * (999 / 1000)"
    using round64_neg [of "- (263 / 10 ^ 18)" "arctan t" "- (131 / 10 ^ 18)"] by auto
  obtain p where p: "round64 pi = Dbl p" "2 * (999 / 1000) \<le> p" "p \<le> 4 * (1001 / 1000)"
    using round64_pos [of 2 pi 4] pi_ge_two pi_less_4 by auto
  have p0: "\<not> p = 0" using p(2) by simp
  have "180 / (4 * (1001 / 1000)) \<le> 180 / p" "180 / p \<le> 180 / (2 * (999 / 1000))"
    using p(2,3) by (simp_all add: field_simps)
  then have "44 \<le> 180 / p" "180 / p \<le> 181 / 2" by simp_all
  then obtain c where c: "round64 (180 / p) = Dbl c"
      "44 * (999 / 1000) \<le> c" "c \<le> 181 / 2 * (1001 / 1000)"
    using round64_pos [of 44 "180 / p" "181 / 2"] by auto
  have c': "43 \<le> c" "c \<le> 91" using c(2,3) by simp_all
  have a': "1 / 10 ^ 16 \<le> - a" "- a \<le> 264 / 10 ^ 18" using a(2,3) by simp_all
  have "1 / 10 ^ 16 * 43 \<le> - a * c"
    using a'(1) c'(1) by (intro mult_mono) simp_all
  moreover have "- a * c \<le> 264 / 10 ^ 18 * 91"
    using a' c' by (intro mult_mono) simp_all
  ultimately have "- (264 / 10 ^ 18 * 91) \<le> a * c" "a * c \<le> - (1 / 10 ^ 16 * 43)"
    by simp_all
  then obtain h where h: "round64 (a * c) = Dbl h"
      "- (264 / 10 ^ 18 * 91) * (1001 / 1000) \<le> h" "h \<le> - (1 / 10 ^ 16 * 43) * (999 / 1000)"
    using round64_neg [of "- (264 / 10 ^ 18 * 91)" "a * c" "- (1 / 10 ^ 16 * 43)"] by auto
  have h': "- (1 / 2 ^ 45) < h" "h < 0" using h(2,3) by simp_all
  have s: "round64 (h + 360) = Dbl 360" using h' by (rule round64_add_360)
  have "luvToLch_d (Dbl red_L, Dbl red_u, Dbl red_v)
      = (Dbl red_L, sanitize_d (sqrt_d (Dbl red_u * Dbl red_u + Dbl red_v * Dbl red_v)), Dbl 360)"
    by (simp only: luvToLch_d.simps myAtan2_d_def toDegrees_d_def atan_d.simps lit_180 lit_360
        Let_def if_True if_False simp_thms prod.case fst_conv snd_conv isnan_d.simps isinf_d.simps plus_dbl.simps times_dbl.simps divide_dbl.simps uminus_dbl.simps minus_dbl_def abs_dbl.simps less_dbl.simps less_eq_dbl.simps sanitize_d_def range_d_def
        f1 f2 f3 f4 a(1) p(1) p0 c(1) h(1) h'(2) s)
  then show ?thesis by blast
qed


subsection \<open>Finite and clamped results\<close>

lemma lit_0 [simp]: "lit 0 = Dbl 0"
  by (simp add: lit_def round64_zero)

lemma lit_zero: "lit 0.0 = Dbl 0"
  by simp

lemma lit_1 [simp]: "lit 1 = Dbl 1"
  by (simp add: lit_def round64_1)

lemma lit_100 [simp]: "lit 100 = Dbl 100"
  by (simp add: lit_def round64_100)

lemma lit_360' [simp]: "lit 360 = Dbl 360"
  by (simp add: lit_def round64_360)

lemma sanitize_d_Dbl [simp]: "sanitize_d (Dbl x) = Dbl x"
  by (simp add: sanitize_d_def)

lemma sanitize_d_special [simp]:
  "sanitize_d NotNum = Dbl 0" "sanitize_d PosInf = Dbl 0" "sanitize_d NegInf = Dbl 0"
  by (simp_all add: sanitize_d_def)

lemma sanitize_d_finite: "\<exists>r. sanitize_d v = Dbl r"
  by (cases v) simp_all

lemma zero_nonfinite_d_finite: "\<exists>r. zero_nonfinite_d v = Dbl r"
  by (cases v) (simp_all add: zero_nonfinite_d_def)

lemma range_d_Dbl [simp]:
  "range_d (Dbl x) (Dbl lo) (Dbl hi) = Dbl (if x < lo then lo else if hi < x then hi else x)"
  by (simp add: range_d_def)

lemma clamp01_d_sanitize: "\<exists>r. clamp01_d (sanitize_d v) = Dbl r \<and> 0 \<le> r \<and> r \<le> 1"
  by (cases v) (simp_all add: clamp01_d_def)

lemma xyzToRgb_d_unit:
  "\<exists>r g b. xyzToRgb_d t = (Dbl r, Dbl g, Dbl b)
     \<and> 0 \<le> r \<and> r \<le> 1 \<and> 0 \<le> g \<and> g \<le> 1 \<and> 0 \<le> b \<and> b \<le> 1"
proof -
  obtain X Y Z where t: "t = (X, Y, Z)" by (cases t)
  show ?thesis
    unfolding t xyzToRgb_d.simps Let_def
    using clamp01_d_sanitize by (metis (no_types))
qed

lemma hsluvToRgb_d_unit:
  "\<exists>r g b. hsluvToRgb_d HSL = (Dbl r, Dbl g, Dbl b)
     \<and> 0 \<le> r \<and> r \<le> 1 \<and> 0 \<le> g \<and> g \<le> 1 \<and> 0 \<le> b \<and> b \<le> 1"
  unfolding hsluvToRgb_d_def by (rule xyzToRgb_d_unit)

lemma limit01_d_unit: "0 \<le> r \<Longrightarrow> r \<le> 1 \<Longrightarrow> limit01_d (Dbl r) = Dbl r"
  by (simp add: limit01_d_def)

lemma toColour_d_unit:
  "\<exists>r g b. toColour_d HSL = (Dbl r, Dbl g, Dbl b, Dbl 1)
     \<and> 0 \<le> r \<and> r \<le> 1 \<and> 0 \<le> g \<and> g \<le> 1 \<and> 0 \<le> b \<and> b \<le> 1"
proof -
  obtain r g b where "hsluvToRgb_d HSL = (Dbl r, Dbl g, Dbl b)"
    "0 \<le> r" "r \<le> 1" "0 \<le> g" "g \<le> 1" "0 \<le> b" "b \<le> 1"
    using hsluvToRgb_d_unit by blast
  then show ?thesis
    by (simp add: toColour_d_def toVec4_d_def limit01_d_unit)
qed

text \<open>
  Whatever the chain computes, the last two loops of \<open>fromColour\<close> leave three finite
  numbers inside the closed ranges.
\<close>

lemma fromColour_d_range:
  "\<exists>h s l. fromColour_d v = (Dbl h, Dbl s, Dbl l)
     \<and> 0 \<le> h \<and> h \<le> 360 \<and> 0 \<le> s \<and> s \<le> 100 \<and> 0 \<le> l \<and> l \<le> 100"
proof -
  obtain h0 s0 l0 where v: "fromVec4_d v = (h0, s0, l0)"
    by (cases "fromVec4_d v") auto
  obtain h1 s1 l1 where z: "zero_nonfinite_d h0 = Dbl h1" "zero_nonfinite_d s0 = Dbl s1"
      "zero_nonfinite_d l0 = Dbl l1"
    using zero_nonfinite_d_finite by metis
  show ?thesis
    by (simp add: fromColour_d_def v z)
qed

text \<open>
  The stages that sanitize what they return hand on finite numbers, whatever they are
  given (the last stage of the backward chain, which passes hue and lightness on, when it
  is given finite numbers, as it is in the chain).
\<close>

lemma finite3_d_Dbl [simp]: "finite3_d (Dbl a, Dbl b, Dbl c)"
  by (simp add: finite3_d_def)

lemma finite3_d_ex: "finite3_d t = (\<exists>a b c. t = (Dbl a, Dbl b, Dbl c))"
proof -
  obtain x y z where t: "t = (x, y, z)" by (cases t)
  show ?thesis
    unfolding t by (cases x; cases y; cases z) (simp_all add: finite3_d_def)
qed

lemma hsluvToLch_d_finite: "finite3_d (hsluvToLch_d t)"
proof -
  obtain H S L where t: "t = (H, S, L)" by (cases t)
  obtain h l where s: "sanitize_d H = Dbl h" "sanitize_d L = Dbl l"
    using sanitize_d_finite by metis
  obtain c where c: "sanitize_d (maxChromaForLH_d (Dbl l) (Dbl h)
      * (range_d (sanitize_d S) (lit 0.0) (lit 100.0) / lit 100.0)) = Dbl c"
    using sanitize_d_finite by blast
  show ?thesis
    unfolding t hsluvToLch_d.simps Let_def s c by simp
qed

lemma lchToLuv_d_finite: "finite3_d (lchToLuv_d t)"
proof -
  obtain L C H where t: "t = (L, C, H)" by (cases t)
  show ?thesis
    unfolding t lchToLuv_d.simps Let_def finite3_d_ex
    using sanitize_d_finite by (metis (no_types))
qed

lemma xyzToRgb_d_finite: "finite3_d (xyzToRgb_d t)"
  using xyzToRgb_d_unit [of t] by (auto simp add: finite3_d_ex)

lemma rgbToXyz_d_finite: "finite3_d (rgbToXyz_d t)"
proof -
  obtain R G B where t: "t = (R, G, B)" by (cases t)
  show ?thesis
    unfolding t rgbToXyz_d.simps Let_def finite3_d_ex
    using sanitize_d_finite by (metis (no_types))
qed

lemma xyzToLuv_d_finite: "finite3_d (xyzToLuv_d t)"
proof -
  obtain X Y Z where t: "t = (X, Y, Z)" by (cases t)
  have "\<exists>l u v. xyzToLuv_d t = (Dbl l, Dbl u, Dbl v)"
    unfolding t xyzToLuv_d.simps Let_def
    using sanitize_d_finite lit_0 [of] by (metis (no_types) lit_zero)
  then show ?thesis by (simp add: finite3_d_ex)
qed

lemma luvToLch_d_finite: "finite3_d (luvToLch_d t)"
proof -
  obtain L u v where t: "t = (L, u, v)" by (cases t)
  show ?thesis
    unfolding t luvToLch_d.simps Let_def finite3_d_ex
    using sanitize_d_finite by (metis (no_types))
qed

lemma lchToHsluv_d_finite: "finite3_d t \<Longrightarrow> finite3_d (lchToHsluv_d t)"
proof -
  assume "finite3_d t"
  then obtain l c h where t: "t = (Dbl l, Dbl c, Dbl h)"
    by (auto simp add: finite3_d_ex)
  obtain s where s: "sanitize_d (Dbl c / maxChromaForLH_d (Dbl l) (Dbl h) * lit 100.0) = Dbl s"
    using sanitize_d_finite by blast
  show ?thesis
    unfolding t lchToHsluv_d.simps Let_def s by simp
qed

text \<open>
  \<open>luvToXyz\<close> does not sanitize what it returns; the next stage, \<open>xyzToRgb\<close>, sanitizes
  what it is given.
\<close>

lemma sanitize_d_idem: "sanitize_d (sanitize_d v) = sanitize_d v"
  by (cases v) simp_all

lemma xyzToRgb_d_sanitizes:
  "xyzToRgb_d (X, Y, Z) = xyzToRgb_d (sanitize_d X, sanitize_d Y, sanitize_d Z)"
  by (simp add: sanitize_d_idem)


section \<open>Neutral colours\<close>

text \<open>
  A grey in the linear part of the companding curve: all of the chain up to the \<open>Luv\<close>
  triple is rational arithmetic. The weights of \<open>Y\<close> add up to \<open>1.0000001\<close>, not to
  \<open>REF_Y\<close>, so \<open>u\<close> is negative and \<open>v\<close> positive.
\<close>

lemma gray_xyz:
  "rgbToXyz (Fin 0.04, Fin 0.04, Fin 0.04) =
     (Fin (0.95047 * (0.04 / 12.92)), Fin (1.0000001 * (0.04 / 12.92)),
      Fin (1.08883 * (0.04 / 12.92)))"
  by (simp add: srgbInverseCompanding_def Let_def)

lemma gray_luv:
  "xyzToLuv (rgbToXyz (Fin 0.04, Fin 0.04, Fin 0.04)) = (Fin l, Fin u, Fin v) \<Longrightarrow>
     2 < l \<and> l < 3 \<and> u < 0 \<and> 0 < v"
  unfolding gray_xyz
  by (simp add: Let_def EPS_def REF_X_def REF_Y_def REF_Z_def E_def K_def minus_num_def)

lemma luvToLch_second_quadrant:
  assumes "u < 0" and "0 \<le> v"
  shows "\<exists>c h. luvToLch (Fin l, Fin u, Fin v) = (Fin l, Fin c, Fin h) \<and> 0 < h"
proof -
  let ?a = "arctan (v / u) + 3.141592653589793"
  have a: "myAtan2 (Fin v) (Fin u) = Fin ?a"
    using assms by (simp add: myAtan2_def Let_def PI_def)
  have "- 2 < arctan (v / u)"
    using arctan_bounded [of "v / u"] pi_less_4 by simp
  then have pos: "0 < ?a * (180 / pi)"
    by simp
  have "0 \<le> u * u + v * v" by simp
  then show ?thesis
    using pos by (simp add: Let_def a toDegrees_def)
qed

text \<open>
  C9, as stated, fails. The grey \<open>r = g = b = 0.04\<close> has a lightness between 2 and 3, away
  from both extremes; its \<open>u\<close> is not 0, and the hue that \<open>rgbToHsluv\<close> returns for it is
  not 0.
\<close>

theorem gray_hue_counterexample:
  "fst (rgbToHsluv (Fin 0.04, Fin 0.04, Fin 0.04)) \<noteq> Fin 0
   \<and> \<not> fst (luvToLch (xyzToLuv (rgbToXyz (Fin 0.04, Fin 0.04, Fin 0.04)))) < EPS
   \<and> \<not> fst (luvToLch (xyzToLuv (rgbToXyz (Fin 0.04, Fin 0.04, Fin 0.04)))) > Fin 99.99999
   \<and> fst (snd (xyzToLuv (rgbToXyz (Fin 0.04, Fin 0.04, Fin 0.04)))) \<noteq> Fin 0"
proof -
  obtain l u v where
    luv: "xyzToLuv (rgbToXyz (Fin 0.04, Fin 0.04, Fin 0.04)) = (Fin l, Fin u, Fin v)"
    using xyzToLuv_finite by blast
  then have b: "2 < l" "l < 3" "u < 0" "0 < v"
    using gray_luv by blast+
  obtain c h where lch: "luvToLch (Fin l, Fin u, Fin v) = (Fin l, Fin c, Fin h)" and h: "0 < h"
    using luvToLch_second_quadrant [of u v l] b by auto
  have "fst (rgbToHsluv (Fin 0.04, Fin 0.04, Fin 0.04)) = Fin h"
    by (simp only: rgbToHsluv_def luv lch lchToHsluv_hue)
  moreover have "fst (luvToLch (xyzToLuv (rgbToXyz (Fin 0.04, Fin 0.04, Fin 0.04)))) = Fin l"
    by (simp only: luv lch fst_conv)
  moreover have "fst (snd (xyzToLuv (rgbToXyz (Fin 0.04, Fin 0.04, Fin 0.04)))) = Fin u"
    by (simp only: luv fst_conv snd_conv)
  ultimately show ?thesis
    using b h by (simp add: EPS_def)
qed

lemma neutral_luv: "lchToHsluv (luvToLch (L, Fin 0, Fin 0)) = (Fin 0, Fin 0, sanitize L)"
proof -
  obtain l where l: "sanitize L = Fin l" using sanitize_finite by blast
  have lch: "luvToLch (L, Fin 0, Fin 0) = (Fin l, Fin 0, Fin 0)"
    by (simp add: Let_def l myAtan2_def toDegrees_def)
  obtain r where r: "maxChromaForLH (Fin l) (Fin 0) = Fin r" "0 \<le> r"
    using maxChromaForLH_bounds by blast
  show ?thesis
    unfolding lch l by (simp add: Let_def r EPS_def)
qed

lemma black_luv: "xyzToLuv (rgbToXyz (Fin 0, Fin 0, Fin 0)) = (Fin 0, Fin 0, Fin 0)"
  by (simp add: srgbInverseCompanding_def Let_def EPS_def)

text \<open>
  C9, amended. For every \<open>Luv\<close> colour with \<open>u = v = 0\<close>, whatever its lightness, and so
  for every device colour that \<open>xyzToLuv\<close> takes to \<open>u = v = 0\<close>, the result has hue exactly 0
  and saturation exactly 0: both comparisons of every quadrant branch of \<open>myAtan2\<close> fail and
  it returns its final 0.
\<close>

theorem neutral_luv_hue_zero:
  "lchToHsluv (luvToLch (L, Fin 0, Fin 0)) = (Fin 0, Fin 0, sanitize L)
   \<and> (xyzToLuv (rgbToXyz c) = (L', Fin 0, Fin 0)
        \<longrightarrow> rgbToHsluv c = (Fin 0, Fin 0, sanitize L'))"
  by (simp add: rgbToHsluv_def neutral_luv del: lchToHsluv.simps luvToLch.simps)

theorem neutral_luv_hue_zero_witness:
  "rgbToHsluv (Fin 0, Fin 0, Fin 0) = (Fin 0, Fin 0, Fin 0)"
  using neutral_luv_hue_zero [of "Fin 0" "(Fin 0, Fin 0, Fin 0)" "Fin 0"] black_luv
  by (simp del: lchToHsluv.simps luvToLch.simps xyzToLuv.simps rgbToXyz.simps)

section \<open>One round trip: pure yellow\<close>

text \<open>
  Pure yellow \<open>[1, 1, 0]\<close> is followed through \<open>rgbToHsluv\<close> and back through
  \<open>hsluvToRgb\<close>. Its chroma is about 1.0006 times the maximum chroma that \<open>maxChromaForLH\<close>
  finds at its lightness and hue (the matrix of \<open>getBounds\<close> is not the matrix of
  \<open>xyzToRgb\<close>), so its saturation is clamped to 100, and the way back starts from the smaller
  chroma.
\<close>

lemma one_companding: "srgbInverseCompanding (Fin 1) = Fin 1"
  by (simp add: srgbInverseCompanding_def Let_def)

lemma zero_companding: "srgbInverseCompanding (Fin 0) = Fin 0"
  by (simp add: srgbInverseCompanding_def Let_def)

lemma yellow_xyz:
  "rgbToXyz (Fin 1, Fin 1, Fin 0) = (Fin 0.7700325, Fin 0.9278251, Fin 0.1385259)"
  by (simp add: one_companding zero_companding Let_def)

lemma cube_root_cube:
  fixes y :: real
  assumes "0 < y"
  shows "((116 * y powr (1 / 3) - 16 + 16) / 116) ^ 3 = y"
proof -
  have "(y powr (1 / 3)) powr 3 = (y powr (1 / 3)) ^ 3"
    using assms by (intro powr_numeral) simp
  moreover have "(y powr (1 / 3)) powr 3 = y"
    using assms by (simp add: powr_powr)
  ultimately show ?thesis by simp
qed

lemma cube_root_bounds:
  fixes y a b :: real
  assumes "a ^ 3 < y" and "y < b ^ 3" and "0 \<le> a" and "0 \<le> b" 
  shows "a < y powr (1 / 3) \<and> y powr (1 / 3) < b"
proof -
  have y: "0 < y" using assms zero_le_power [of a 3] by linarith
  let ?c = "y powr (1 / 3)"
  have c: "?c ^ 3 = y" using cube_root_cube [OF y] by simp
  have c0: "0 \<le> ?c" by simp
  have "a < ?c"
  proof (rule ccontr)
    assume "\<not> a < ?c"
    then have "?c ^ 3 \<le> a ^ 3" using c0 by (intro power_mono) simp_all
    then show False using assms c by simp
  qed
  moreover have "?c < b"
  proof (rule ccontr)
    assume "\<not> ?c < b"
    then have "b ^ 3 \<le> ?c ^ 3" using assms by (intro power_mono) simp_all
    then show False using assms c by simp
  qed
  ultimately show ?thesis by simp
qed

lemma yellow_luv:
  "xyzToLuv (Fin 0.7700325, Fin 0.9278251, Fin 0.1385259) =
     (Fin (116 * 0.9278251 powr (1 / 3) - 16),
      Fin ((116 * 0.9278251 powr (1 / 3) - 16) * (13 * (4 * 0.7700325 / 15.1029867 - 4 * 0.95047 / 19.21696))),
      Fin ((116 * 0.9278251 powr (1 / 3) - 16) * (13 * (9 * 0.9278251 / 15.1029867 - 9 / 19.21696))))"
  by (simp add: Let_def EPS_def REF_X_def REF_Y_def REF_Z_def E_def K_def minus_num_def)

lemma pushLine_safe_cube:
  assumes cube: "((l + 16) / 116) ^ 3 = y"
    and y: "0.0088564516 < y"
    and bottom: "1 / 10 ^ 10 \<le> \<bar>(632260 * c - 126452 * b) * y + 126452 * t\<bar>"
  shows "pushLine_safe (Fin a) (Fin b) (Fin c) (Fin l) (Fin t) =
     Some (Fin ((284517 * a - 94839 * c) * y / ((632260 * c - 126452 * b) * y + 126452 * t)),
           Fin (l * (((838422 * c + 769860 * b + 731718 * a) * y - 769860 * t)
                  / ((632260 * c - 126452 * b) * y + 126452 * t))))"
proof -
  have sub1: "pow ((Fin l + Fin 16.0) / Fin 116.0) (Fin 3.0) = Fin y"
    using cube by simp
  have sub2: "sanitize (if Fin y > E then Fin y else Fin l / K) = Fin y"
    using y by (simp add: E_def)
  have y0: "1 / 10 ^ 10 \<le> \<bar>y\<bar>" using y by simp
  let ?bot = "(632260 * c - 126452 * b) * y + 126452 * t"
  have bot: "sanitize ((Fin 632260.0 * Fin c - Fin 126452.0 * Fin b) * Fin y + Fin 126452.0 * Fin t)
      = Fin ?bot"
    by (simp add: minus_num_def)
  have nz: "?bot \<noteq> 0" using bottom by auto
  have top1: "(Fin 284517.0 * Fin a - Fin 94839.0 * Fin c) * Fin y / Fin ?bot
      = Fin ((284517 * a - 94839 * c) * y / ?bot)"
    using nz by (simp add: minus_num_def)
  have top2: "((Fin 838422.0 * Fin c + Fin 769860.0 * Fin b + Fin 731718.0 * Fin a) * Fin y * Fin l
        - Fin 769860.0 * Fin t * Fin l) / Fin ?bot
      = Fin (l * (((838422 * c + 769860 * b + 731718 * a) * y - 769860 * t) / ?bot))"
    using nz by (simp add: minus_num_def algebra_simps)
  show ?thesis
    unfolding pushLine_safe_def Let_def sanitize_Fin sub1 sub2 bot top1 top2
    using y0 bottom by (simp add: EPS_def)
qed

lemma toRadians_toDegrees: "toRadians (Fin (a * (180 / pi))) = Fin a"
  by (simp add: toRadians_def)

lemma rayLength_arctan:
  assumes "q \<noteq> m"
  shows "rayLength (Fin (arctan q)) (Fin m, Fin (l * \<beta>)) =
     Fin ((l * sqrt (1 + q\<^sup>2)) * (\<beta> / (q - m)))"
proof -
  let ?s = "sqrt (1 + q\<^sup>2)"
  have s: "0 < ?s" by (simp add: add_pos_nonneg)
  have d: "sin (arctan q) - m * cos (arctan q) = (q - m) / ?s"
    by (simp add: sin_arctan cos_arctan diff_divide_distrib)
  have nz: "(q - m) / ?s \<noteq> 0" using assms s by simp
  have "l * \<beta> / ((q - m) / ?s) = (l * ?s) * (\<beta> / (q - m))"
    by simp
  then show ?thesis
    using nz by (simp add: rayLength_def minus_num_def d del: divide_eq_0_iff)
qed

lemma maxChroma_loop_scaled:
  assumes k: "0 < k"
    and lens: "map (rayLength h) bs = map (\<lambda>r. Fin (k * r)) rs"
    and mem: "\<rho> \<in> set rs" and nonneg: "0 \<le> \<rho>"
    and least: "\<forall>r\<in>set rs. 0 \<le> r \<longrightarrow> \<rho> \<le> r"
    and below: "k * \<rho> \<le> 10 ^ 10"
  shows "maxChroma_loop h bs (Fin (10 ^ 10)) = Fin (k * \<rho>)"
proof -
  let ?S = "insert (10 ^ 10) (nonneg_lengths (map (\<lambda>r. Fin (k * r)) rs))"
  have "Min ?S = k * \<rho>"
  proof (rule Min_eqI)
    show "finite ?S" by (simp add: finite_nonneg_lengths)
    show "k * \<rho> \<in> ?S"
      using mem nonneg k by (auto simp add: nonneg_lengths_def)
    show "k * \<rho> \<le> x" if "x \<in> ?S" for x
    proof (cases "x = 10 ^ 10")
      case True
      then show ?thesis using below by simp
    next
      case False
      then have "x \<in> nonneg_lengths (map (\<lambda>r. Fin (k * r)) rs)"
        using that by simp
      then have x: "0 \<le> x" "Fin x \<in> (\<lambda>r. Fin (k * r)) ` set rs"
        by (simp_all add: nonneg_lengths_def)
      then obtain r where r: "r \<in> set rs" "x = k * r" "0 \<le> x"
        by auto
      then have "0 \<le> r" using k by (simp add: zero_le_mult_iff)
      then have "\<rho> \<le> r" using least r by blast
      then show ?thesis using k r by simp
    qed
  qed
  then show ?thesis
    by (simp add: maxChroma_loop_Min lens)
qed

lemma yellow_L_cube: "((yellow_L + 16) / 116) ^ 3 = 0.9278251"
  unfolding yellow_L_def by (rule cube_root_cube) simp

lemma yellow_L_bounds: "88 < yellow_L" "yellow_L < 99"
  using cube_root_bounds [of "0.9" "0.9278251" "0.99"]
  by (simp_all add: yellow_L_def power3_eq_cube)

lemma bounds_m_rows: "bounds_m = map (\<lambda>(a, b, c). (Fin a, Fin b, Fin c)) gamut_rows"
  by (simp add: bounds_m_def gamut_rows_def)

lemma pushLine_safe_line:
  assumes "((l + 16) / 116) ^ 3 = y" and "0.0088564516 < y"
    and "1 / 10 ^ 10 \<le> \<bar>line_bottom y (a, b, c) t\<bar>"
  shows "pushLine_safe (Fin a) (Fin b) (Fin c) (Fin l) (Fin t) =
     Some (Fin (line_slope y (a, b, c) t), Fin (l * line_icpt y (a, b, c) t))"
  using pushLine_safe_cube [of l y c b t a] assms
  by (simp add: line_bottom_def line_slope_def line_icpt_def)

lemma getBounds_loop_cube:
  assumes cube: "((l + 16) / 116) ^ 3 = y" and y: "0.0088564516 < y"
    and bottoms: "\<forall>row\<in>set rs. 1 / 10 ^ 10 \<le> \<bar>line_bottom y row 0\<bar>
                     \<and> 1 / 10 ^ 10 \<le> \<bar>line_bottom y row 1\<bar>"
  shows "getBounds_loop (map (\<lambda>(a, b, c). (Fin a, Fin b, Fin c)) rs) (Fin l) acc =
     acc @ map (\<lambda>(row, t). (Fin (line_slope y row t), Fin (l * line_icpt y row t)))
             (concat (map (\<lambda>row. [(row, 0), (row, 1)]) rs))"
  using bottoms
proof (induction rs arbitrary: acc)
  case Nil
  then show ?case by simp
next
  case (Cons row rs)
  obtain a b c where row: "row = (a, b, c)" by (cases row)
  have b: "1 / 10 ^ 10 \<le> \<bar>line_bottom y (a, b, c) 0\<bar>" "1 / 10 ^ 10 \<le> \<bar>line_bottom y (a, b, c) 1\<bar>"
    using Cons.prems by (simp_all add: row)
  have 0: "pushLine_safe (Fin a) (Fin b) (Fin c) (Fin l) (Fin 0) =
      Some (Fin (line_slope y (a, b, c) 0), Fin (l * line_icpt y (a, b, c) 0))"
    using cube y b(1) by (rule pushLine_safe_line)
  have 1: "pushLine_safe (Fin a) (Fin b) (Fin c) (Fin l) (Fin 1) =
      Some (Fin (line_slope y (a, b, c) 1), Fin (l * line_icpt y (a, b, c) 1))"
    using cube y b(2) by (rule pushLine_safe_line)
  have IH: "getBounds_loop (map (\<lambda>(a, b, c). (Fin a, Fin b, Fin c)) rs) (Fin l) acc' =
     acc' @ map (\<lambda>(row, t). (Fin (line_slope y row t), Fin (l * line_icpt y row t)))
             (concat (map (\<lambda>row. [(row, 0), (row, 1)]) rs))" for acc'
    using Cons by simp
  show ?case
    unfolding row by (simp add: Let_def 0 1 IH)
qed

lemma yellow_bounds:
  "getBounds (Fin yellow_L) =
     map (\<lambda>(row, t). (Fin (line_slope 0.9278251 row t), Fin (yellow_L * line_icpt 0.9278251 row t))) gamut_rows_t"
  unfolding getBounds_def bounds_m_rows gamut_rows_t_def
  using getBounds_loop_cube [OF yellow_L_cube, of gamut_rows "[]"]
  by (simp add: gamut_rows_def line_bottom_def)

lemma yellow_q_val: "yellow_q = 2045243350272 / 147582660817"
  by (simp add: yellow_q_def yellow_du_def yellow_dv_def)

lemma yellow_rho_val:
  "yellow_rho =
     27334556228147429672462153967770552478 / 344790591286581572567677867656322137709"
  by (simp add: yellow_rho_def ray_factor_def line_icpt_def line_slope_def line_bottom_def yellow_q_val)

lemmas line_defs = ray_factor_def line_icpt_def line_slope_def line_bottom_def

lemma rayLengths_scaled:
  assumes "\<forall>(row, t)\<in>set rts. q \<noteq> line_slope y row t"
  shows "map (rayLength (Fin (arctan q)))
           (map (\<lambda>(row, t). (Fin (line_slope y row t), Fin (l * line_icpt y row t))) rts) =
         map (\<lambda>r. Fin ((l * sqrt (1 + q\<^sup>2)) * r)) (map (\<lambda>(row, t). ray_factor y q row t) rts)"
  using assms by (induction rts) (auto simp add: rayLength_arctan ray_factor_def)

lemma yellow_slopes: "\<forall>(row, t)\<in>set gamut_rows_t. yellow_q \<noteq> line_slope 0.9278251 row t"
  by (simp add: gamut_rows_t_def gamut_rows_def line_defs yellow_q_val)

lemma yellow_mem:
  "yellow_rho \<in> set (map (\<lambda>(row, t). ray_factor 0.9278251 yellow_q row t) gamut_rows_t)"
  by (simp add: gamut_rows_t_def gamut_rows_def yellow_rho_def)

lemma yellow_least:
  "\<forall>r\<in>set (map (\<lambda>(row, t). ray_factor 0.9278251 yellow_q row t) gamut_rows_t). 0 \<le> r \<longrightarrow> yellow_rho \<le> r"
  by (simp add: gamut_rows_t_def gamut_rows_def yellow_rho_val line_defs yellow_q_val)

lemma yellow_rho_bounds: "0.0792 < yellow_rho" "yellow_rho < 0.0793"
  by (simp_all add: yellow_rho_val)

lemma yellow_s_bounds: "1 \<le> yellow_s" "yellow_s < 14"
proof -
  show "1 \<le> yellow_s" by (simp add: yellow_s_def)
  have "1 + yellow_q\<^sup>2 < 14\<^sup>2" by (simp add: yellow_q_val power2_eq_square)
  then show "yellow_s < 14" unfolding yellow_s_def by (intro real_less_lsqrt) simp_all
qed

lemma yellow_scale_bounds: "88 < yellow_L * yellow_s" "yellow_L * yellow_s < 1386"
proof -
  have "88 * 1 < yellow_L * yellow_s"
    using yellow_L_bounds yellow_s_bounds by (intro mult_less_le_imp_less) simp_all
  then show "88 < yellow_L * yellow_s" by simp
  have "yellow_L * yellow_s < 99 * 14"
    using yellow_L_bounds yellow_s_bounds by (intro mult_strict_mono) simp_all
  then show "yellow_L * yellow_s < 1386" by simp
qed

lemma yellow_maxC_bounds: "1 < yellow_maxC" "yellow_maxC < 1386"
proof -
  have "88 * 0.0792 < yellow_L * yellow_s * yellow_rho"
    using yellow_scale_bounds yellow_rho_bounds by (intro mult_strict_mono) simp_all
  then show "1 < yellow_maxC" by (simp add: yellow_maxC_def)
  have "yellow_L * yellow_s * yellow_rho < 1386 * 1"
    using yellow_scale_bounds yellow_rho_bounds by (intro mult_strict_mono) simp_all
  then show "yellow_maxC < 1386" by (simp add: yellow_maxC_def)
qed

lemma toRadians_yellow_H: "toRadians (Fin yellow_H) = Fin (arctan yellow_q)"
  unfolding yellow_H_def by (rule toRadians_toDegrees)

lemma yellow_maxChroma: "maxChromaForLH (Fin yellow_L) (Fin yellow_H) = Fin yellow_maxC"
proof -
  have k: "0 < yellow_L * yellow_s" using yellow_scale_bounds by simp
  have "maxChroma_loop (Fin (arctan yellow_q)) (getBounds (Fin yellow_L)) (Fin (10 ^ 10)) =
      Fin (yellow_L * yellow_s * yellow_rho)"
    using k _ yellow_mem _ yellow_least
  proof (rule maxChroma_loop_scaled)
    show "map (rayLength (Fin (arctan yellow_q))) (getBounds (Fin yellow_L)) =
        map (\<lambda>r. Fin (yellow_L * yellow_s * r))
          (map (\<lambda>(row, t). ray_factor 0.9278251 yellow_q row t) gamut_rows_t)"
      unfolding yellow_bounds yellow_s_def using yellow_slopes by (rule rayLengths_scaled)
    show "0 \<le> yellow_rho" using yellow_rho_bounds by simp
    show "yellow_L * yellow_s * yellow_rho \<le> 10 ^ 10" using yellow_maxC_bounds by (simp add: yellow_maxC_def)
  qed
  then show ?thesis
    unfolding maxChromaForLH_def Let_def toRadians_yellow_H yellow_maxC_def .
qed

lemma yellow_luv_scaled:
  "xyzToLuv (Fin 0.7700325, Fin 0.9278251, Fin 0.1385259) = (Fin yellow_L, Fin (yellow_L * yellow_du), Fin (yellow_L * yellow_dv))"
  unfolding yellow_L_def yellow_du_def yellow_dv_def by (rule yellow_luv)

lemma yellow_d_bounds: "0 < yellow_du" "0 < yellow_dv" "yellow_rho < yellow_du"
  by (simp_all add: yellow_du_def yellow_dv_def yellow_rho_val)

lemma luvToLch_first_quadrant:
  assumes "0 < l" and "0 < dU" and "0 \<le> dV"
  shows "luvToLch (Fin l, Fin (l * dU), Fin (l * dV)) =
     (Fin l, Fin (l * dU * sqrt (1 + (dV / dU)\<^sup>2)), Fin (arctan (dV / dU) * (180 / pi)))"
proof -
  let ?s = "sqrt (1 + (dV / dU)\<^sup>2)"
  have "(l * dU * ?s)\<^sup>2 = (l * dU)\<^sup>2 * (1 + (dV / dU)\<^sup>2)"
    by (simp add: power_mult_distrib)
  also have "\<dots> = l * dU * (l * dU) + l * dV * (l * dV)"
    using assms by (simp add: power2_eq_square field_simps)
  finally have "sqrt (l * dU * (l * dU) + l * dV * (l * dV)) = l * dU * ?s"
    using assms by (intro real_sqrt_unique) simp_all
  moreover have "myAtan2 (Fin (l * dV)) (Fin (l * dU)) = Fin (arctan (dV / dU))"
    using assms by (simp add: myAtan2_def Let_def)
  moreover have "\<not> arctan (dV / dU) * 180 / pi < 0"
    using assms by (simp add: divide_less_0_iff mult_less_0_iff)
  moreover have "\<not> l * dU * (l * dU) + l * dV * (l * dV) < 0"
    by (simp add: not_less)
  ultimately show ?thesis
    by (simp add: Let_def toDegrees_def)
qed

lemma yellow_lch:
  "luvToLch (Fin yellow_L, Fin (yellow_L * yellow_du), Fin (yellow_L * yellow_dv)) = (Fin yellow_L, Fin (yellow_L * yellow_du * yellow_s), Fin yellow_H)"
  unfolding yellow_q_def yellow_s_def yellow_H_def using yellow_L_bounds yellow_d_bounds
  by (intro luvToLch_first_quadrant) simp_all

lemma yellow_saturation: "100 < yellow_L * yellow_du * yellow_s / yellow_maxC * 100"
proof -
  have "yellow_L \<noteq> 0" "yellow_s \<noteq> 0" "yellow_rho \<noteq> 0"
    using yellow_L_bounds yellow_s_bounds yellow_rho_bounds by simp_all
  then have eq: "yellow_L * yellow_du * yellow_s / yellow_maxC * 100 = yellow_du / yellow_rho * 100"
    by (simp add: yellow_maxC_def field_simps)
  have "0 < yellow_rho" using yellow_rho_bounds by simp
  then have "100 < yellow_du / yellow_rho * 100"
    using yellow_d_bounds by (simp add: pos_less_divide_eq)
  then show ?thesis
    by (simp only: eq)
qed

lemma yellow_hsluv: "rgbToHsluv (Fin 1, Fin 1, Fin 0) = (Fin yellow_H, Fin 100, Fin yellow_L)"
proof -
  have "lchToHsluv (Fin yellow_L, Fin (yellow_L * yellow_du * yellow_s), Fin yellow_H) = (Fin yellow_H, Fin 100, Fin yellow_L)"
    using yellow_L_bounds yellow_maxC_bounds yellow_saturation
    by (simp add: Let_def EPS_def yellow_maxChroma)
  then show ?thesis
    unfolding rgbToHsluv_def yellow_xyz yellow_luv_scaled yellow_lch .
qed

lemma yellow_lch_forward:
  "hsluvToLch (Fin yellow_H, Fin 100, Fin yellow_L) = (Fin yellow_L, Fin yellow_maxC, Fin yellow_H)"
  using yellow_L_bounds yellow_maxC_bounds by (simp add: Let_def EPS_def yellow_maxChroma)

lemma yellow_luv_forward:
  "lchToLuv (Fin yellow_L, Fin yellow_maxC, Fin yellow_H) = (Fin yellow_L, Fin (yellow_L * yellow_rho), Fin (yellow_L * yellow_rho * yellow_q))"
proof -
  have s: "yellow_s \<noteq> 0" using yellow_s_bounds by simp
  have "yellow_maxC * cos (arctan yellow_q) = yellow_L * yellow_rho"
    using s by (simp add: yellow_maxC_def cos_arctan yellow_s_def [symmetric])
  moreover have "yellow_maxC * sin (arctan yellow_q) = yellow_L * yellow_rho * yellow_q"
    using s by (simp add: yellow_maxC_def sin_arctan yellow_s_def [symmetric])
  ultimately show ?thesis
    by (simp add: Let_def toRadians_yellow_H)
qed

lemma yellow_V_bounds: "0.5 < yellow_V" "yellow_V < 0.6"
  by (simp_all add: yellow_V_def yellow_rho_val yellow_q_val)

lemma yellow_xyz_forward:
  "luvToXyz (Fin yellow_L, Fin (yellow_L * yellow_rho), Fin (yellow_L * yellow_rho * yellow_q)) = (Fin yellow_X, Fin 0.9278251, Fin yellow_Z)"
proof -
  have l: "yellow_L \<noteq> 0" "\<not> yellow_L \<le> 8" "\<not> yellow_L < 1 / 10 ^ 10" using yellow_L_bounds by simp_all
  have Y: "pow ((Fin yellow_L + Fin 16) / Fin 116) (Fin 3) = Fin 0.9278251"
    using yellow_L_cube by simp
  have U: "yellow_L * yellow_rho / (13 * yellow_L) + 4 * 0.95047 / (0.95047 + 15 + 3 * 1.08883) = yellow_U"
    using l by (simp add: yellow_U_def)
  have V: "yellow_L * yellow_rho * yellow_q / (13 * yellow_L) + 9 / (0.95047 + 15 + 3 * 1.08883) = yellow_V"
    using l by (simp add: yellow_V_def)
  have UV: "Fin (yellow_L * yellow_rho) / (Fin 13.0 * Fin yellow_L) + Fin 4.0 * REF_X / (REF_X + Fin 15.0 * REF_Y + Fin 3.0 * REF_Z) = Fin yellow_U"
     "Fin (yellow_L * yellow_rho * yellow_q) / (Fin 13.0 * Fin yellow_L) + Fin 9.0 * REF_Y / (REF_X + Fin 15.0 * REF_Y + Fin 3.0 * REF_Z) = Fin yellow_V"
    using l U V by (simp_all add: REF_X_def REF_Y_def REF_Z_def)
  have d: "\<not> \<bar>Fin 4.0 * Fin yellow_V\<bar> < EPS" "4 * yellow_V \<noteq> 0"
    using yellow_V_bounds by (simp_all add: EPS_def)
  have Ls: "\<not> Fin yellow_L \<le> Fin 8" "\<not> Fin yellow_L < EPS"
    using l by (simp_all add: EPS_def)
  show ?thesis
    unfolding luvToXyz.simps Let_def sanitize_Fin Y UV
    using d Ls by (simp add: REF_Y_def yellow_X_def yellow_Z_def minus_num_def)
qed

lemma yellow_blue_val:
  "yellow_blue =
     20277758310668519256131151314597247731527101432926654427
       / 3391743583665114470023212007134030304257752000000000000000"
  by (simp add: yellow_blue_def yellow_X_def yellow_Z_def yellow_U_def yellow_V_def yellow_rho_val yellow_q_val)

lemma yellow_blue_bounds: "0.005 < yellow_blue" "yellow_blue < 0.006"
  by (simp_all add: yellow_blue_val)

lemma yellow_rgb_forward:
  "third (xyzToRgb (Fin yellow_X, Fin 0.9278251, Fin yellow_Z)) = Fin yellow_blue"
proof -
  have "12.92 * (yellow_X * 0.0556434 + 0.9278251 * (- 0.2040259) + yellow_Z * 1.0572252) = yellow_blue"
    by (simp add: yellow_blue_def)
  then have "srgbCompanding (Fin yellow_X * M20 + Fin 0.9278251 * M21 + Fin yellow_Z * M22) = Fin yellow_blue"
    using yellow_blue_bounds by (simp add: srgbCompanding_def Let_def M20_def M21_def M22_def)
  then show ?thesis
    using yellow_blue_bounds by (simp add: third_def Let_def clamp01_def)
qed

lemma yellow_round_trip:
  "third (hsluvToRgb (rgbToHsluv (Fin 1, Fin 1, Fin 0))) = Fin yellow_blue"
  unfolding yellow_hsluv hsluvToRgb_def yellow_lch_forward yellow_luv_forward yellow_xyz_forward
  by (rule yellow_rgb_forward)

text \<open>
  C1. The claim: a device colour with channels in \<open>[0, 1]\<close> comes back from
  \<open>hsluvToRgb (rgbToHsluv c)\<close> within about \<open>1e-3\<close> per channel. The code does not achieve
  it: pure yellow has blue channel 0 and comes back with a blue channel above 0.005
  (about 0.00598).
\<close>

theorem yellow_round_trip_error:
  "third (Fin 1, Fin 1, Fin 0) = Fin 0
   \<and> Fin 0.005 < third (hsluvToRgb (rgbToHsluv (Fin 1, Fin 1, Fin 0)))"
  using yellow_blue_bounds by (simp add: yellow_round_trip third_def [of "(a, b, c)" for a b c])

section \<open>The derived states\<close>

lemma disabled_L [simp]:
  "third (d_disabled (deriveStates (pH, pS, Fin l))) =
     Fin (if pS < Fin 35 \<and> \<bar>l * 0.5 + 25 - l\<bar> < 15 then l * 0.5 + 45 else l * 0.5 + 25)"
  by (simp add: third_def Let_def minus_num_def)

lemma hover_L [simp]:
  "third (d_hover (deriveStates (pH, pS, Fin l))) = Fin (if 80 < l then l - 10 else l + 10)"
  by (simp add: third_def Let_def minus_num_def)

lemma focus_eq_hover [simp]: "d_focus (deriveStates p) = d_hover (deriveStates p)"
  by (cases p) (simp add: Let_def)

lemma clicked_L [simp]:
  "third (d_clicked (deriveStates (pH, pS, Fin l))) = Fin (if l < 20 then l + 15 else l - 15)"
  by (simp add: third_def Let_def minus_num_def)

lemma focusOutline_eq [simp]:
  "d_focusOutline (deriveStates (pH, pS, pL)) =
     (fmod (pH + Fin 180) (Fin 360), Fin 100, if pL > Fin 60 then Fin 20 else Fin 90)"
  by (simp add: Let_def)

lemma hover_H: "fst (d_hover (deriveStates (pH, pS, pL))) = pH"
  by (simp add: Let_def)

declare deriveStates.simps [simp del]

lemma fmod_360_nonneg: "0 \<le> x \<Longrightarrow> fmod (Fin x) (Fin 360) = Fin (spec_mod360 x)"
  by (simp add: spec_mod360_def)

text \<open>
  C4. The claim: with a base saturation below 35, the disabled lightness ends at least 15
  away from the base lightness. The code does not achieve it. With a base saturation below
  35 the final distance is below 15 exactly when the base lightness is strictly between 60
  and 80: there the first distance \<open>|25 - L/2|\<close> is below 15, the fix adds 20, and the
  distance after the fix is \<open>|45 - L/2|\<close>, still below 15; the disabled lightness has only
  moved from one side of the base lightness to the other.
\<close>

theorem disabled_still_close:
  assumes "s < 35"
  shows "\<exists>d. third (d_disabled (deriveStates (pH, Fin s, Fin l))) = Fin d
           \<and> (\<bar>d - l\<bar> < 15) = (60 < l \<and> l < 80)"
  using assms by auto

theorem disabled_still_close_witness:
  "\<exists>d. third (d_disabled (deriveStates (Fin 0, Fin 0, Fin 70))) = Fin d \<and> \<bar>d - 70\<bar> < 15"
  using disabled_still_close [of 0 "Fin 0" 70] by simp

text \<open>
  C6. For every base colour, the focus outline has the hue of the focus background plus 180
  modulo 360, saturation 100, and lightness 20 when the base lightness is above 60 and 90
  otherwise; at base lightness 60.0 it is 90 and at 60.01 it is 20. The hue of a base colour
  comes from \<open>fromColour\<close>, so it is finite and not negative, where the remainder of
  \<open>Math.fmod\<close> is the specification's modulo.
\<close>

theorem focusOutline_complement:
  "(case fromColour v of (pH, pS, pL) \<Rightarrow>
      \<exists>h. fst (d_focus (deriveStates (pH, pS, pL))) = Fin h
        \<and> d_focusOutline (deriveStates (pH, pS, pL)) =
            (Fin (spec_mod360 (h + 180)), Fin 100, if pL > Fin 60 then Fin 20 else Fin 90))
   \<and> third (d_focusOutline (deriveStates (H, S, Fin 60.0))) = Fin 90
   \<and> third (d_focusOutline (deriveStates (H, S, Fin 60.01))) = Fin 20"
proof -
  obtain h s l where v: "fromColour v = (Fin h, Fin s, Fin l)" and h: "0 \<le> h"
    using fromColour_range [of v] by auto
  have "fst (d_focus (deriveStates (Fin h, Fin s, Fin l))) = Fin h"
    by (simp add: hover_H)
  moreover have "fmod (Fin h + Fin 180) (Fin 360) = Fin (spec_mod360 (h + 180))"
    using h by (simp add: fmod_360_nonneg del: fmod.simps)
  ultimately show ?thesis
    by (simp add: v third_def)
qed

text \<open>
  C7. \<open>chooseHighContrastBW\<close> returns pure black \<open>[0, 0, 0]\<close> when the luminance of its
  argument is above 0.5 and pure white \<open>[0, 0, 100]\<close> otherwise, never a third value, and
  its result is a function of that luminance alone.
\<close>

theorem chooseHighContrastBW_black_or_white:
  "(\<forall>c. chooseHighContrastBW c =
          (if getLuminance c > Fin 0.5 then (Fin 0, Fin 0, Fin 0) else (Fin 0, Fin 0, Fin 100)))
   \<and> (\<exists>f. \<forall>c. chooseHighContrastBW c = f (getLuminance c))"
proof
  show "\<forall>c. chooseHighContrastBW c =
          (if getLuminance c > Fin 0.5 then (Fin 0, Fin 0, Fin 0) else (Fin 0, Fin 0, Fin 100))"
    by (simp add: chooseHighContrastBW_def Let_def)
  show "\<exists>f. \<forall>c. chooseHighContrastBW c = f (getLuminance c)"
    by (rule exI [of _ "\<lambda>Lv. if Lv > Fin 0.5 then (Fin 0, Fin 0, Fin 0) else (Fin 0, Fin 0, Fin 100)"])
       (simp add: chooseHighContrastBW_def Let_def)
qed

text \<open>
  C8. \<open>resolveButtonState\<close> returns the name chosen by the priority order disabled, forceFocus,
  clicked, hover, focus, where the first flag that is set wins and forceFocus and focus both give
  the focus state; it returns normal exactly when no flag is set. It is a function of the flags
  alone.
\<close>

theorem resolveButtonState_priority:
  "resolveButtonState flags =
     first_match [(disabled flags, ''disabled''), (forceFocus flags, ''focus''),
                  (clicked flags, ''clicked''), (hover flags, ''hover''),
                  (focus flags, ''focus'')] ''normal''
   \<and> (resolveButtonState flags = ''normal'') =
       (\<not> disabled flags \<and> \<not> forceFocus flags \<and> \<not> clicked flags \<and> \<not> hover flags
        \<and> \<not> focus flags)"
  by (simp add: resolveButtonState_def)

text \<open>
  C10. The lightness of the base colour's HSLuv form is in \<open>[0, 100]\<close>, as \<open>fromColour\<close>
  leaves it, and for every such lightness the derived lightness stays in range without
  clamping: hover and focus in \<open>[10, 90]\<close>, clicked in \<open>[5, 85]\<close>, disabled in \<open>[25, 95]\<close>,
  and the focus outline is 20 or 90.
\<close>

theorem derived_lightness_in_range:
  "(\<exists>h s l. fromColour v = (Fin h, Fin s, Fin l) \<and> 0 \<le> l \<and> l \<le> 100)
   \<and> (0 \<le> l \<and> l \<le> 100 \<longrightarrow>
         Fin 10 \<le> third (d_hover (deriveStates (pH, pS, Fin l)))
       \<and> third (d_hover (deriveStates (pH, pS, Fin l))) \<le> Fin 90
       \<and> Fin 10 \<le> third (d_focus (deriveStates (pH, pS, Fin l)))
       \<and> third (d_focus (deriveStates (pH, pS, Fin l))) \<le> Fin 90
       \<and> Fin 5 \<le> third (d_clicked (deriveStates (pH, pS, Fin l)))
       \<and> third (d_clicked (deriveStates (pH, pS, Fin l))) \<le> Fin 85
       \<and> Fin 25 \<le> third (d_disabled (deriveStates (pH, pS, Fin l)))
       \<and> third (d_disabled (deriveStates (pH, pS, Fin l))) \<le> Fin 95
       \<and> (third (d_focusOutline (deriveStates (pH, pS, Fin l))) = Fin 20
          \<or> third (d_focusOutline (deriveStates (pH, pS, Fin l))) = Fin 90))"
proof
  show "\<exists>h s l. fromColour v = (Fin h, Fin s, Fin l) \<and> 0 \<le> l \<and> l \<le> 100"
    using fromColour_range [of v] by blast
  show "0 \<le> l \<and> l \<le> 100 \<longrightarrow>
         Fin 10 \<le> third (d_hover (deriveStates (pH, pS, Fin l)))
       \<and> third (d_hover (deriveStates (pH, pS, Fin l))) \<le> Fin 90
       \<and> Fin 10 \<le> third (d_focus (deriveStates (pH, pS, Fin l)))
       \<and> third (d_focus (deriveStates (pH, pS, Fin l))) \<le> Fin 90
       \<and> Fin 5 \<le> third (d_clicked (deriveStates (pH, pS, Fin l)))
       \<and> third (d_clicked (deriveStates (pH, pS, Fin l))) \<le> Fin 85
       \<and> Fin 25 \<le> third (d_disabled (deriveStates (pH, pS, Fin l)))
       \<and> third (d_disabled (deriveStates (pH, pS, Fin l))) \<le> Fin 95
       \<and> (third (d_focusOutline (deriveStates (pH, pS, Fin l))) = Fin 20
          \<or> third (d_focusOutline (deriveStates (pH, pS, Fin l))) = Fin 90)"
    by (simp add: third_def [of "(a, b, c)" for a b c])
qed

theorem derived_lightness_in_range_witness:
  "Fin 10 \<le> third (d_hover (deriveStates (Fin 0, Fin 75, Fin 50)))
   \<and> third (d_hover (deriveStates (Fin 0, Fin 75, Fin 50))) \<le> Fin 90
   \<and> Fin 10 \<le> third (d_focus (deriveStates (Fin 0, Fin 75, Fin 50)))
   \<and> third (d_focus (deriveStates (Fin 0, Fin 75, Fin 50))) \<le> Fin 90
   \<and> Fin 5 \<le> third (d_clicked (deriveStates (Fin 0, Fin 75, Fin 50)))
   \<and> third (d_clicked (deriveStates (Fin 0, Fin 75, Fin 50))) \<le> Fin 85
   \<and> Fin 25 \<le> third (d_disabled (deriveStates (Fin 0, Fin 75, Fin 50)))
   \<and> third (d_disabled (deriveStates (Fin 0, Fin 75, Fin 50))) \<le> Fin 95
   \<and> (third (d_focusOutline (deriveStates (Fin 0, Fin 75, Fin 50))) = Fin 20
      \<or> third (d_focusOutline (deriveStates (Fin 0, Fin 75, Fin 50))) = Fin 90)"
proof -
  have "(0::real) \<le> 50 \<and> (50::real) \<le> 100" by simp
  with derived_lightness_in_range [of _ 50 "Fin 0" "Fin 75"] show ?thesis
    by blast
qed

end
